theory Spec2Isabelle
  imports Complex_Main "HOL-Library.Word" "HOL-Library.Multiset"
begin

section \<open>JavaScript values used by the popup\<close>

text \<open>
  A JavaScript string is a sequence of 16-bit UTF-16 code units. The popup's query, the
  URLs and the titles are such strings; \<open>js\<close> writes a literal.
\<close>

type_synonym code_unit = "16 word"
type_synonym jsstring = "code_unit list"

definition js :: "string \<Rightarrow> jsstring" where
  "js s = map of_char s"

text \<open>\<^verbatim>\<open>s.startsWith(p)\<close>\<close>

definition startsWith :: "jsstring \<Rightarrow> jsstring \<Rightarrow> bool" where
  "startsWith s p = (take (length p) s = p)"

text \<open>What a rejected promise or a thrown exception carries.\<close>

datatype error = HostError jsstring | URIError | TypeError

section \<open>Data model (Popup.tsx, the interfaces and the component state)\<close>

record MutedInfo =
  muted :: bool

text \<open>
  \<^verbatim>\<open>interface TabItem\<close>. An optional field is an \<open>option\<close>; \<open>url\<close> is declared
  \<^verbatim>\<open>string\<close> but every use guards it (\<^verbatim>\<open>tab.url && ...\<close>, \<^verbatim>\<open>tab.url || ""\<close>), a closed
  tab of the sessions API may lack it, so it is optional here too. The field \<^verbatim>\<open>id\<close> is
  \<open>tab_id\<close> (\<open>id\<close> is the identity function of HOL). Numbers are rationals: only
  their order and their being zero are used.
\<close>

record TabItem =
  tab_id :: "int option"
  title :: jsstring
  url :: "jsstring option"
  favIconUrl :: "jsstring option"
  lastAccessed :: "rat option"
  active :: "bool option"
  audible :: "bool option"
  mutedInfo :: "MutedInfo option"

text \<open>\<^verbatim>\<open>interface HistoryItem\<close> and \<^verbatim>\<open>interface BookmarkItem\<close>; their fields carry a prefix,
  the field names of all records sharing one name space.\<close>

record HistoryItem =
  h_id :: jsstring
  h_url :: "jsstring option"
  h_title :: "jsstring option"
  lastVisitTime :: "rat option"
  visitCount :: "rat option"
  typedCount :: "rat option"

record BookmarkItem =
  b_id :: jsstring
  b_url :: "jsstring option"
  b_title :: jsstring
  dateAdded :: "rat option"

text \<open>The \<^verbatim>\<open>filters\<close> state and the argument of \<^verbatim>\<open>handleFilterClick\<close>.\<close>

record Filters =
  all :: bool
  tab :: bool
  history :: bool
  bookmark :: bool

datatype filter_name = FAll | FTab | FHistory | FBookmark

text \<open>The component state: one slot per \<^verbatim>\<open>React.useState\<close>.\<close>

record state =
  openTabs :: "TabItem list"
  recentlyClosedTabs :: "TabItem list"
  historyItems :: "HistoryItem list"
  bookmarkItems :: "BookmarkItem list"
  filters :: Filters
  sessionsError :: jsstring
  searchValue :: jsstring

definition initial_filters :: Filters where
  "initial_filters = \<lparr>all = True, tab = False, history = False, bookmark = False\<rparr>"

definition initial_state :: state where
  "initial_state = \<lparr>openTabs = [], recentlyClosedTabs = [], historyItems = [],
     bookmarkItems = [], filters = initial_filters, sessionsError = [], searchValue = []\<rparr>"

section \<open>The filter buttons\<close>

text \<open>\<^verbatim>\<open>filters[filter]\<close> and \<^verbatim>\<open>{...filters, all: false, [filter]: !filters[filter]}\<close>
  for a specific filter.\<close>

fun flag :: "filter_name \<Rightarrow> Filters \<Rightarrow> bool" where
  "flag FAll f = all f"
| "flag FTab f = tab f"
| "flag FHistory f = history f"
| "flag FBookmark f = bookmark f"

fun toggled :: "filter_name \<Rightarrow> Filters \<Rightarrow> Filters" where
  "toggled FAll f = f\<lparr>all := False\<rparr>\<lparr>all := \<not> all f\<rparr>"
| "toggled FTab f = f\<lparr>all := False\<rparr>\<lparr>tab := \<not> tab f\<rparr>"
| "toggled FHistory f = f\<lparr>all := False\<rparr>\<lparr>history := \<not> history f\<rparr>"
| "toggled FBookmark f = f\<lparr>all := False\<rparr>\<lparr>bookmark := \<not> bookmark f\<rparr>"

definition handleFilterClick :: "filter_name \<Rightarrow> Filters \<Rightarrow> Filters" where
  "handleFilterClick flt f =
     (if flt = FAll then \<lparr>all = True, tab = False, history = False, bookmark = False\<rparr>
      else let newFilters = toggled flt f in
        if \<not> tab newFilters \<and> \<not> history newFilters \<and> \<not> bookmark newFilters
        then newFilters\<lparr>all := True\<rparr>
        else newFilters)"

section \<open>Truthiness\<close>

text \<open>
  \<^verbatim>\<open>x && f(x)\<close> and \<^verbatim>\<open>x || d\<close> test the truthiness of \<open>x\<close>: \<^verbatim>\<open>undefined\<close>, the
  empty string, the number 0 and \<^verbatim>\<open>false\<close> are falsy.
\<close>

fun truthy_string :: "jsstring option \<Rightarrow> bool" where
  "truthy_string None = False"
| "truthy_string (Some s) = (s \<noteq> [])"

fun truthy_int :: "int option \<Rightarrow> bool" where
  "truthy_int None = False"
| "truthy_int (Some n) = (n \<noteq> 0)"

fun truthy_bool :: "bool option \<Rightarrow> bool" where
  "truthy_bool None = False"
| "truthy_bool (Some b) = b"

section \<open>Regular expressions\<close>

text \<open>
  The patterns of \<^verbatim>\<open>isUrl\<close> and \<^verbatim>\<open>handleUrlNavigation\<close> use classes, sequence,
  \<^verbatim>\<open>?\<close>, \<^verbatim>\<open>+\<close>, \<^verbatim>\<open>*\<close> and \<^verbatim>\<open>{m,n}\<close>, without flags: no back reference and no
  look-around, so \<^verbatim>\<open>test\<close> and \<^verbatim>\<open>match\<close> succeed exactly when some split of the text
  fits the pattern. A class item is a code unit, a range, \<^verbatim>\<open>\d\<close> or \<^verbatim>\<open>\w\<close>.
\<close>

datatype citem = Ch code_unit | Range code_unit code_unit | Digit | WordChar

fun in_item :: "citem \<Rightarrow> code_unit \<Rightarrow> bool" where
  "in_item (Ch d) c = (c = d)"
| "in_item (Range lo hi) c = (lo \<le> c \<and> c \<le> hi)"
| "in_item Digit c = (0x30 \<le> c \<and> c \<le> 0x39)"
| "in_item WordChar c =
     ((0x41 \<le> c \<and> c \<le> 0x5A) \<or> (0x61 \<le> c \<and> c \<le> 0x7A) \<or>
      (0x30 \<le> c \<and> c \<le> 0x39) \<or> c = 0x5F)"

definition in_class :: "citem list \<Rightarrow> code_unit \<Rightarrow> bool" where
  "in_class cls c = list_ex (\<lambda>i. in_item i c) cls"

datatype regex = Eps | Cls "citem list" | Seq regex regex | Alt regex regex | Star regex

text \<open>\<open>matches r s\<close>: the whole of \<open>s\<close> fits \<open>r\<close> (the pattern between \<^verbatim>\<open>^\<close> and \<^verbatim>\<open>$\<close>).\<close>

fun matches :: "regex \<Rightarrow> jsstring \<Rightarrow> bool" where
  "matches Eps s = (s = [])"
| "matches (Cls cls) s = (case s of [c] \<Rightarrow> in_class cls c | _ \<Rightarrow> False)"
| "matches (Alt r1 r2) s = (matches r1 s \<or> matches r2 s)"
| "matches (Seq r1 r2) s =
     list_ex (\<lambda>i. matches r1 (take i s) \<and> matches r2 (drop i s)) [0..<Suc (length s)]"
| "matches (Star r) s =
     (s = [] \<or>
      list_ex (\<lambda>i. matches r (take i s) \<and> matches (Star r) (drop i s)) [1..<Suc (length s)])"

text \<open>\<^verbatim>\<open>r?\<close>, \<^verbatim>\<open>r+\<close>, a literal text and \<^verbatim>\<open>r{m,n}\<close>.\<close>

definition Opt :: "regex \<Rightarrow> regex" where
  "Opt r = Alt r Eps"

definition Plus1 :: "regex \<Rightarrow> regex" where
  "Plus1 r = Seq r (Star r)"

fun Lit :: "jsstring \<Rightarrow> regex" where
  "Lit [] = Eps"
| "Lit (c # cs) = Seq (Cls [Ch c]) (Lit cs)"

fun Rep :: "nat \<Rightarrow> nat \<Rightarrow> regex \<Rightarrow> regex" where
  "Rep 0 0 r = Eps"
| "Rep 0 (Suc n) r = Opt (Seq r (Rep 0 n r))"
| "Rep (Suc m) n r = Seq r (Rep m (n - 1) r)"

text \<open>A pattern that starts with \<^verbatim>\<open>^\<close> and has no \<^verbatim>\<open>$\<close>: some prefix of the text fits.\<close>

definition matches_prefix :: "regex \<Rightarrow> jsstring \<Rightarrow> bool" where
  "matches_prefix r s = list_ex (\<lambda>i. matches r (take i s)) [0..<Suc (length s)]"

section \<open>isUrl and extractDomain\<close>

text \<open>\<^verbatim>\<open>https?:\/\/\<close>, the scheme of both patterns.\<close>

definition scheme_re :: regex where
  "scheme_re = Seq (Lit (js ''http'')) (Seq (Opt (Lit (js ''s''))) (Lit (js ''://'')))"

text \<open>The classes \<^verbatim>\<open>[\da-z.-]\<close>, \<^verbatim>\<open>[a-z.]\<close> and \<^verbatim>\<open>[/\w .-]\<close>.\<close>

definition host_class :: "citem list" where
  "host_class = [Digit, Range 0x61 0x7A, Ch 0x2E, Ch 0x2D]"

definition tld_class :: "citem list" where
  "tld_class = [Range 0x61 0x7A, Ch 0x2E]"

definition path_class :: "citem list" where
  "path_class = [Ch 0x2F, WordChar, Ch 0x20, Ch 0x2E, Ch 0x2D]"

text \<open>\<^verbatim>\<open>/^(https?:\/\/)?([\da-z.-]+)\.([a-z.]{2,6})([/\w .-]*)*\/?$/\<close>\<close>

definition isUrl_re :: regex where
  "isUrl_re =
     Seq (Opt scheme_re)
    (Seq (Plus1 (Cls host_class))
    (Seq (Cls [Ch 0x2E])
    (Seq (Rep 2 6 (Cls tld_class))
    (Seq (Star (Star (Cls path_class)))
         (Opt (Cls [Ch 0x2F]))))))"

definition isUrl :: "jsstring \<Rightarrow> bool" where
  "isUrl v = matches isUrl_re v"

text \<open>
  \<^verbatim>\<open>new URL(url)\<close> is the platform's parser, a parameter here: it answers \<open>None\<close> where
  the constructor throws. Of the parsed URL only \<^verbatim>\<open>hostname\<close> is read.
\<close>

record URL =
  hostname :: jsstring

definition extractDomain :: "(jsstring \<Rightarrow> URL option) \<Rightarrow> jsstring \<Rightarrow> jsstring" where
  "extractDomain new_URL u =
     (if startsWith u (js ''about:'') then u
      else case new_URL u of
             Some parsed \<Rightarrow> hostname parsed
           | None \<Rightarrow> u)"

section \<open>encodeURIComponent\<close>

text \<open>
  The builtin of ECMAScript (the operation Encode with the unreserved set of
  \<^verbatim>\<open>encodeURIComponent\<close>): an unreserved code unit is copied; any other code point is
  written as the percent-escaped octets of its UTF-8 form; on a surrogate code unit
  without its partner it throws a URIError, here \<open>None\<close>.
\<close>

definition uriUnreserved :: "code_unit \<Rightarrow> bool" where
  "uriUnreserved c =
     ((0x41 \<le> c \<and> c \<le> 0x5A) \<or> (0x61 \<le> c \<and> c \<le> 0x7A) \<or> (0x30 \<le> c \<and> c \<le> 0x39) \<or>
      c \<in> set (js ''-_.!~*'' @ [0x27] @ js ''()''))"

definition isLeadingSurrogate :: "code_unit \<Rightarrow> bool" where
  "isLeadingSurrogate c = (0xD800 \<le> c \<and> c \<le> 0xDBFF)"

definition isTrailingSurrogate :: "code_unit \<Rightarrow> bool" where
  "isTrailingSurrogate c = (0xDC00 \<le> c \<and> c \<le> 0xDFFF)"

definition UTF16SurrogatePairToCodePoint :: "code_unit \<Rightarrow> code_unit \<Rightarrow> nat" where
  "UTF16SurrogatePairToCodePoint lead trail =
     (unat lead - 0xD800) * 0x400 + (unat trail - 0xDC00) + 0x10000"

definition utf8 :: "nat \<Rightarrow> nat list" where
  "utf8 cp =
     (if cp < 0x80 then [cp]
      else if cp < 0x800 then [0xC0 + cp div 0x40, 0x80 + cp mod 0x40]
      else if cp < 0x10000 then
        [0xE0 + cp div 0x1000, 0x80 + cp div 0x40 mod 0x40, 0x80 + cp mod 0x40]
      else
        [0xF0 + cp div 0x40000, 0x80 + cp div 0x1000 mod 0x40,
         0x80 + cp div 0x40 mod 0x40, 0x80 + cp mod 0x40])"

definition hexDigit :: "nat \<Rightarrow> code_unit" where
  "hexDigit d = (if d < 10 then 0x30 + of_nat d else 0x41 + of_nat (d - 10))"

definition percentEscape :: "nat \<Rightarrow> jsstring" where
  "percentEscape octet = [0x25, hexDigit (octet div 16), hexDigit (octet mod 16)]"

definition escapeCodePoint :: "nat \<Rightarrow> jsstring" where
  "escapeCodePoint cp = concat (map percentEscape (utf8 cp))"

fun encodeURIComponent :: "jsstring \<Rightarrow> jsstring option" where
  "encodeURIComponent [] = Some []"
| "encodeURIComponent (c # cs) =
     (if uriUnreserved c then map_option (\<lambda>r. c # r) (encodeURIComponent cs)
      else if isLeadingSurrogate c then
        (case cs of
           [] \<Rightarrow> None
         | d # ds \<Rightarrow>
             if isTrailingSurrogate d
             then map_option (\<lambda>r. escapeCodePoint (UTF16SurrogatePairToCodePoint c d) @ r)
                    (encodeURIComponent ds)
             else None)
      else if isTrailingSurrogate c then None
      else map_option (\<lambda>r. escapeCodePoint (unat c) @ r) (encodeURIComponent cs))"

text \<open>\<^verbatim>\<open>String.prototype.isWellFormed\<close>: no surrogate code unit without its partner.\<close>

fun isWellFormed :: "jsstring \<Rightarrow> bool" where
  "isWellFormed [] = True"
| "isWellFormed (c # cs) =
     (if isLeadingSurrogate c then
        (case cs of [] \<Rightarrow> False | d # ds \<Rightarrow> isTrailingSurrogate d \<and> isWellFormed ds)
      else \<not> isTrailingSurrogate c \<and> isWellFormed cs)"

section \<open>The host: the browser extension API\<close>

text \<open>
  \<^verbatim>\<open>browser.sessions.getRecentlyClosed\<close> resolves to sessions, of which only \<^verbatim>\<open>tab\<close>
  is read.
\<close>

record Session =
  session_tab :: "TabItem option"

text \<open>
  What the host answers to each call the popup makes; a rejected promise is an
  \<open>error\<close>. \<open>sessions_getRecentlyClosed\<close> is \<open>None\<close> when \<^verbatim>\<open>browser.sessions\<close> is
  undefined. An unchanged host is one and the same value of this record.
\<close>

record host =
  tabs_query :: "error + TabItem list"
  sessions_getRecentlyClosed :: "(error + Session list) option"
  history_search :: "jsstring \<Rightarrow> error + HistoryItem list"
  bookmarks_search :: "jsstring \<Rightarrow> error + BookmarkItem list"
  bookmarks_getRecent :: "error + BookmarkItem list"
  tabs_create :: "jsstring \<Rightarrow> error option"
  tabs_update_active :: "int \<Rightarrow> error option"
  windows_getCurrent :: "error + int option"
  windows_update_focused :: "int option \<Rightarrow> error option"

text \<open>The calls a handler makes, in order: host calls, \<^verbatim>\<open>window.close()\<close> and the
  methods of the keyboard event.\<close>

datatype call =
    TabsQuery
  | SessionsGetRecentlyClosed
  | HistorySearch jsstring
  | BookmarksSearch jsstring
  | BookmarksGetRecent
  | TabsCreate jsstring
  | TabsUpdateActive int
  | WindowsGetCurrent
  | WindowsUpdateFocused "int option"
  | WindowClose
  | PreventDefault
  | StopPropagation

text \<open>
  What running a handler gives: the calls it made, the error its promise was rejected
  with (\<open>None\<close> when it ran to its end) and the component state it leaves.
\<close>

record outcome =
  calls :: "call list"
  rejected :: "error option"
  after :: state

section \<open>The four fetches\<close>

text \<open>
  \<^verbatim>\<open>Array.prototype.sort\<close> with a comparison function: the sort is stable, an element
  goes before the first one it does not compare greater than. The comparison of the two
  tab fetches is \<^verbatim>\<open>(b.lastAccessed || 0) - (a.lastAccessed || 0)\<close>.
\<close>

fun insert_sorted :: "('a \<Rightarrow> 'a \<Rightarrow> rat) \<Rightarrow> 'a \<Rightarrow> 'a list \<Rightarrow> 'a list" where
  "insert_sorted cmp x [] = [x]"
| "insert_sorted cmp x (y # ys) =
     (if cmp x y \<le> 0 then x # y # ys else y # insert_sorted cmp x ys)"

definition array_sort :: "('a \<Rightarrow> 'a \<Rightarrow> rat) \<Rightarrow> 'a list \<Rightarrow> 'a list" where
  "array_sort cmp xs = foldr (insert_sorted cmp) xs []"

definition lastAccessedOr0 :: "TabItem \<Rightarrow> rat" where
  "lastAccessedOr0 t = (case lastAccessed t of None \<Rightarrow> 0 | Some n \<Rightarrow> if n = 0 then 0 else n)"

definition byLastAccessed :: "TabItem \<Rightarrow> TabItem \<Rightarrow> rat" where
  "byLastAccessed a b = lastAccessedOr0 b - lastAccessedOr0 a"

definition fetchOpenTabs :: "host \<Rightarrow> state \<Rightarrow> outcome" where
  "fetchOpenTabs h st =
     (case tabs_query h of
        Inl e \<Rightarrow> \<lparr>calls = [TabsQuery], rejected = Some e, after = st\<rparr>
      | Inr tabs \<Rightarrow>
          \<lparr>calls = [TabsQuery], rejected = None,
           after = st\<lparr>openTabs := array_sort byLastAccessed tabs\<rparr>\<rparr>)"

definition sessions_unavailable :: jsstring where
  "sessions_unavailable =
     js ''Cannot access recently closed tabs. Please ensure necessary permissions are granted.''"

definition sessions_failed :: jsstring where
  "sessions_failed = js ''Error fetching recently closed tabs''"

definition fetchRecentlyClosedTabs :: "host \<Rightarrow> state \<Rightarrow> outcome" where
  "fetchRecentlyClosedTabs h st =
     (case sessions_getRecentlyClosed h of
        None \<Rightarrow> \<lparr>calls = [], rejected = None, after = st\<lparr>sessionsError := sessions_unavailable\<rparr>\<rparr>
      | Some (Inr sessions) \<Rightarrow>
          \<lparr>calls = [SessionsGetRecentlyClosed], rejected = None,
           after = st\<lparr>recentlyClosedTabs :=
                        array_sort byLastAccessed
                          (map (\<lambda>s. the (session_tab s))
                             (filter (\<lambda>s. session_tab s \<noteq> None) sessions)),
                      sessionsError := []\<rparr>\<rparr>
      | Some (Inl e) \<Rightarrow>
          \<lparr>calls = [SessionsGetRecentlyClosed], rejected = None,
           after = st\<lparr>sessionsError := sessions_failed, recentlyClosedTabs := []\<rparr>\<rparr>)"

definition fetchHistoryItems :: "host \<Rightarrow> jsstring \<Rightarrow> state \<Rightarrow> outcome" where
  "fetchHistoryItems h query st =
     (case history_search h query of
        Inr items \<Rightarrow>
          \<lparr>calls = [HistorySearch query], rejected = None, after = st\<lparr>historyItems := items\<rparr>\<rparr>
      | Inl e \<Rightarrow>
          \<lparr>calls = [HistorySearch query], rejected = None, after = st\<lparr>historyItems := []\<rparr>\<rparr>)"

definition fetchBookmarkItems :: "host \<Rightarrow> state \<Rightarrow> outcome" where
  "fetchBookmarkItems h st =
     (if searchValue st \<noteq> [] then
        (case bookmarks_search h (searchValue st) of
           Inr items \<Rightarrow>
             \<lparr>calls = [BookmarksSearch (searchValue st)], rejected = None,
              after = st\<lparr>bookmarkItems := filter (\<lambda>item. truthy_string (b_url item)) items\<rparr>\<rparr>
         | Inl e \<Rightarrow>
             \<lparr>calls = [BookmarksSearch (searchValue st)], rejected = None,
              after = st\<lparr>bookmarkItems := []\<rparr>\<rparr>)
      else
        (case bookmarks_getRecent h of
           Inr items \<Rightarrow>
             \<lparr>calls = [BookmarksGetRecent], rejected = None,
              after = st\<lparr>bookmarkItems := filter (\<lambda>item. truthy_string (b_url item)) items\<rparr>\<rparr>
         | Inl e \<Rightarrow>
             \<lparr>calls = [BookmarksGetRecent], rejected = None,
              after = st\<lparr>bookmarkItems := []\<rparr>\<rparr>))"

section \<open>The groups of the result list\<close>

text \<open>\<^verbatim>\<open>tab.audible || tab.mutedInfo?.muted\<close>\<close>

definition audible_or_muted :: "TabItem \<Rightarrow> bool" where
  "audible_or_muted t =
     (truthy_bool (audible t) \<or> (case mutedInfo t of None \<Rightarrow> False | Some m \<Rightarrow> muted m))"

definition mediaTabs :: "state \<Rightarrow> TabItem list" where
  "mediaTabs st = filter (\<lambda>t. audible_or_muted t) (openTabs st)"

definition activeTabs :: "state \<Rightarrow> TabItem list" where
  "activeTabs st =
     filter (\<lambda>t. \<not> truthy_bool (audible t) \<and>
                 \<not> (case mutedInfo t of None \<Rightarrow> False | Some m \<Rightarrow> muted m) \<and>
                 \<not> truthy_bool (active t))
       (openTabs st)"

text \<open>The items of the Quick Actions group, rendered when the query is not empty.\<close>

datatype quick_action = SearchGoogle | NavigateTo

definition quickActions :: "state \<Rightarrow> quick_action list" where
  "quickActions st =
     (if searchValue st \<noteq> [] then
        SearchGoogle # (if isUrl (searchValue st) then [NavigateTo] else [])
      else [])"

section \<open>Actions\<close>

definition switchToTab :: "host \<Rightarrow> int \<Rightarrow> state \<Rightarrow> outcome" where
  "switchToTab h tabId st =
     (case tabs_update_active h tabId of
        Some e \<Rightarrow> \<lparr>calls = [TabsUpdateActive tabId], rejected = Some e, after = st\<rparr>
      | None \<Rightarrow>
          (case windows_getCurrent h of
             Inl e \<Rightarrow>
               \<lparr>calls = [TabsUpdateActive tabId, WindowsGetCurrent], rejected = Some e,
                after = st\<rparr>
           | Inr win_id \<Rightarrow>
               (case windows_update_focused h win_id of
                  Some e \<Rightarrow>
                    \<lparr>calls = [TabsUpdateActive tabId, WindowsGetCurrent,
                              WindowsUpdateFocused win_id],
                     rejected = Some e, after = st\<rparr>
                | None \<Rightarrow>
                    \<lparr>calls = [TabsUpdateActive tabId, WindowsGetCurrent,
                              WindowsUpdateFocused win_id, WindowClose],
                     rejected = None, after = st\<rparr>)))"

text \<open>\<^verbatim>\<open>await browser.tabs.create({ url }); window.close();\<close>, the body of
  \<^verbatim>\<open>reopenTab\<close> and the end of \<^verbatim>\<open>handleSearch\<close> and \<^verbatim>\<open>handleUrlNavigation\<close>.\<close>

definition create_and_close :: "host \<Rightarrow> jsstring \<Rightarrow> state \<Rightarrow> outcome" where
  "create_and_close h u st =
     (case tabs_create h u of
        Some e \<Rightarrow> \<lparr>calls = [TabsCreate u], rejected = Some e, after = st\<rparr>
      | None \<Rightarrow> \<lparr>calls = [TabsCreate u, WindowClose], rejected = None, after = st\<rparr>)"

definition reopenTab :: "host \<Rightarrow> jsstring \<Rightarrow> state \<Rightarrow> outcome" where
  "reopenTab h u st = create_and_close h u st"

text \<open>The \<^verbatim>\<open>switch (searchEngine)\<close> of \<^verbatim>\<open>handleSearch\<close>: the text before the encoded
  query.\<close>

definition searchUrl_prefix :: "jsstring \<Rightarrow> jsstring" where
  "searchUrl_prefix searchEngine =
     (if searchEngine = js ''google'' then js ''https://www.google.com/search?q=''
      else if searchEngine = js ''bing'' then js ''https://www.bing.com/search?q=''
      else if searchEngine = js ''duckduckgo'' then js ''https://duckduckgo.com/?q=''
      else js ''https://www.google.com/search?q='')"

definition handleSearch :: "host \<Rightarrow> jsstring \<Rightarrow> state \<Rightarrow> outcome" where
  "handleSearch h searchEngine st =
     (if searchValue st \<noteq> [] then
        (case encodeURIComponent (searchValue st) of
           None \<Rightarrow> \<lparr>calls = [], rejected = Some URIError, after = st\<rparr>
         | Some encoded \<Rightarrow> create_and_close h (searchUrl_prefix searchEngine @ encoded) st)
      else \<lparr>calls = [], rejected = None, after = st\<rparr>)"

definition handleUrlNavigation :: "host \<Rightarrow> jsstring \<Rightarrow> state \<Rightarrow> outcome" where
  "handleUrlNavigation h u st =
     (let urlWithProtocol = (if matches_prefix scheme_re u then u else js ''https://'' @ u)
      in create_and_close h urlWithProtocol st)"

section \<open>Selecting an item\<close>

text \<open>The \<^verbatim>\<open>onSelect\<close> of a tab item (\<^verbatim>\<open>tab.id && switchToTab(tab.id)\<close>), of a recently
  closed tab, of a bookmark and of a history item (\<^verbatim>\<open>item.url && reopenTab(item.url)\<close>).\<close>

definition onSelect_tab :: "host \<Rightarrow> TabItem \<Rightarrow> state \<Rightarrow> outcome" where
  "onSelect_tab h t st =
     (if truthy_int (tab_id t) then switchToTab h (the (tab_id t)) st
      else \<lparr>calls = [], rejected = None, after = st\<rparr>)"

definition onSelect_closed :: "host \<Rightarrow> TabItem \<Rightarrow> state \<Rightarrow> outcome" where
  "onSelect_closed h t st =
     (if truthy_string (url t) then reopenTab h (the (url t)) st
      else \<lparr>calls = [], rejected = None, after = st\<rparr>)"

definition onSelect_bookmark :: "host \<Rightarrow> BookmarkItem \<Rightarrow> state \<Rightarrow> outcome" where
  "onSelect_bookmark h item st =
     (if truthy_string (b_url item) then reopenTab h (the (b_url item)) st
      else \<lparr>calls = [], rejected = None, after = st\<rparr>)"

definition onSelect_history :: "host \<Rightarrow> HistoryItem \<Rightarrow> state \<Rightarrow> outcome" where
  "onSelect_history h item st =
     (if truthy_string (h_url item) then reopenTab h (the (h_url item)) st
      else \<lparr>calls = [], rejected = None, after = st\<rparr>)"

section \<open>The keyboard\<close>

record KeyboardEvent =
  key :: jsstring
  ctrlKey :: bool
  metaKey :: bool
  shiftKey :: bool
  altKey :: bool

text \<open>
  \<^verbatim>\<open>handleKeyDown\<close> does not await the action it starts: the calls of the action follow
  those on the event, and \<open>rejected\<close> is the rejection nobody handles.
\<close>

definition consume_and_click :: "filter_name \<Rightarrow> state \<Rightarrow> outcome" where
  "consume_and_click flt st =
     \<lparr>calls = [PreventDefault, StopPropagation], rejected = None,
      after = st\<lparr>filters := handleFilterClick flt (filters st)\<rparr>\<rparr>"

definition handleKeyDown :: "host \<Rightarrow> KeyboardEvent \<Rightarrow> state \<Rightarrow> outcome" where
  "handleKeyDown h e st =
     (if key e = js ''Enter'' \<and> (metaKey e \<or> ctrlKey e) then
        (let r = (if isUrl (searchValue st) \<and> shiftKey e
                  then handleUrlNavigation h (searchValue st) st
                  else handleSearch h (js ''google'') st)
         in r\<lparr>calls := PreventDefault # calls r\<rparr>)
      else if ctrlKey e \<or> metaKey e then
        (if key e = js ''1'' then consume_and_click FAll st
         else if key e = js ''2'' then consume_and_click FTab st
         else if key e = js ''3'' then consume_and_click FHistory st
         else if key e = js ''4'' then consume_and_click FBookmark st
         else \<lparr>calls = [], rejected = None, after = st\<rparr>)
      else \<lparr>calls = [], rejected = None, after = st\<rparr>)"

section \<open>Predicates of the specification and example values\<close>

text \<open>The invariant of the spec's data model.\<close>

definition filters_inv :: "Filters \<Rightarrow> bool" where
  "filters_inv f = (all f = (\<not> (tab f \<or> history f \<or> bookmark f)))"

text \<open>Descending order of the last-accessed time, a missing time counting as 0.\<close>

definition newest_first :: "TabItem list \<Rightarrow> bool" where
  "newest_first ts = sorted_wrt (\<lambda>a b. lastAccessedOr0 b \<le> lastAccessedOr0 a) ts"

text \<open>
  A valid-looking top-level domain, in the words of the spec: somewhere in the text a dot
  is followed by two characters of \<^verbatim>\<open>[a-z.]\<close>.
\<close>

fun has_tld :: "jsstring \<Rightarrow> bool" where
  "has_tld [] = False"
| "has_tld (c # cs) =
     ((c = 0x2E \<and>
       (case cs of d # e # rest \<Rightarrow> in_class tld_class d \<and> in_class tld_class e | _ \<Rightarrow> False)) \<or>
      has_tld cs)"

text \<open>The texts \<open>isUrl\<close> accepts: scheme, host, dot, top-level domain, path, slash.\<close>

definition url_shape ::
  "jsstring \<Rightarrow> jsstring \<Rightarrow> jsstring \<Rightarrow> jsstring \<Rightarrow> jsstring \<Rightarrow> bool" where
  "url_shape sch h t p e \<longleftrightarrow>
     (sch = [] \<or> sch = js ''http://'' \<or> sch = js ''https://'') \<and>
     h \<noteq> [] \<and> (\<forall>x \<in> set h. in_class host_class x) \<and>
     2 \<le> length t \<and> length t \<le> 6 \<and> (\<forall>x \<in> set t. in_class tld_class x) \<and>
     (\<forall>x \<in> set p. in_class path_class x) \<and>
     (e = [] \<or> e = [0x2F])"

text \<open>A host that answers every call, with nothing to list; a key chord with Ctrl held;
  a tab; the state with a given query.\<close>

definition quiet_host :: host where
  "quiet_host =
     \<lparr>tabs_query = Inr [], sessions_getRecentlyClosed = Some (Inr []),
      history_search = (\<lambda>q. Inr []), bookmarks_search = (\<lambda>q. Inr []),
      bookmarks_getRecent = Inr [], tabs_create = (\<lambda>u. None),
      tabs_update_active = (\<lambda>i. None), windows_getCurrent = Inr (Some 1),
      windows_update_focused = (\<lambda>w. None)\<rparr>"

definition chord :: "string \<Rightarrow> bool \<Rightarrow> KeyboardEvent" where
  "chord k shift =
     \<lparr>key = js k, ctrlKey = True, metaKey = False, shiftKey = shift, altKey = False\<rparr>"

definition sample_tab :: "int \<Rightarrow> rat option \<Rightarrow> bool \<Rightarrow> bool \<Rightarrow> bool \<Rightarrow> TabItem" where
  "sample_tab i seen act aud mut =
     \<lparr>tab_id = Some i, title = js ''Tab'', url = Some (js ''https://example.com''),
      favIconUrl = None, lastAccessed = seen, active = Some act, audible = Some aud,
      mutedInfo = Some \<lparr>muted = mut\<rparr>\<rparr>"

definition with_query :: "string \<Rightarrow> state" where
  "with_query q = initial_state\<lparr>searchValue := js q\<rparr>"

text \<open>
  What \<^verbatim>\<open>new URL\<close> answers on the texts of the examples below: an ftp URL and an https
  URL have the host name \<^verbatim>\<open>example.com\<close>, \<^verbatim>\<open>about:blank\<close> parses with an empty
  host name, and a text that is no URL makes the constructor throw.
\<close>

definition example_new_URL :: "jsstring \<Rightarrow> URL option" where
  "example_new_URL u =
     (if u = js ''ftp://example.com/x'' then Some \<lparr>hostname = js ''example.com''\<rparr>
      else if u = js ''https://example.com/a'' then Some \<lparr>hostname = js ''example.com''\<rparr>
      else if u = js ''about:blank'' then Some \<lparr>hostname = []\<rparr>
      else None)"

section \<open>Facts about the regular expressions\<close>

text \<open>The equations of sequence and star are unfolded by hand: as rewrite rules they
  do not terminate.\<close>

declare matches.simps(4,5) [simp del]

lemma matches_Seq_iff:
  "matches (Seq r1 r2) s \<longleftrightarrow> (\<exists>u v. s = u @ v \<and> matches r1 u \<and> matches r2 v)"
proof
  assume "matches (Seq r1 r2) s"
  then have "\<exists>i \<in> set [0..<Suc (length s)]. matches r1 (take i s) \<and> matches r2 (drop i s)"
    unfolding matches.simps list_ex_iff .
  then obtain i where "matches r1 (take i s)" "matches r2 (drop i s)"
    by blast
  moreover have "s = take i s @ drop i s" by simp
  ultimately show "\<exists>u v. s = u @ v \<and> matches r1 u \<and> matches r2 v" by blast
next
  assume "\<exists>u v. s = u @ v \<and> matches r1 u \<and> matches r2 v"
  then obtain u v where uv: "s = u @ v" "matches r1 u" "matches r2 v" by blast
  then have "length u \<in> set [0..<Suc (length s)]" by simp
  moreover from uv have "matches r1 (take (length u) s) \<and> matches r2 (drop (length u) s)"
    by simp
  ultimately show "matches (Seq r1 r2) s"
    unfolding matches.simps list_ex_iff by blast
qed

lemma matches_Star_Nil: "matches (Star r) []"
  by (subst matches.simps(5)) simp

lemma matches_Star_iff:
  "matches (Star r) s \<longleftrightarrow>
     s = [] \<or> (\<exists>u v. u \<noteq> [] \<and> s = u @ v \<and> matches r u \<and> matches (Star r) v)"
proof
  assume m: "matches (Star r) s"
  show "s = [] \<or> (\<exists>u v. u \<noteq> [] \<and> s = u @ v \<and> matches r u \<and> matches (Star r) v)"
  proof (cases "s = []")
    case True
    then show ?thesis by simp
  next
    case False
    from m have "s = [] \<or> (\<exists>i \<in> set [1..<Suc (length s)].
        matches r (take i s) \<and> matches (Star r) (drop i s))"
      unfolding list_ex_iff [symmetric] by (subst (asm) matches.simps(5))
    with False obtain i where i: "i \<in> set [1..<Suc (length s)]"
      "matches r (take i s)" "matches (Star r) (drop i s)"
      by blast
    from i(1) False have "take i s \<noteq> []" by auto
    moreover have "s = take i s @ drop i s" by simp
    ultimately show ?thesis using i(2,3) by blast
  qed
next
  assume "s = [] \<or> (\<exists>u v. u \<noteq> [] \<and> s = u @ v \<and> matches r u \<and> matches (Star r) v)"
  then show "matches (Star r) s"
  proof
    assume "s = []"
    then show ?thesis by (simp add: matches_Star_Nil)
  next
    assume "\<exists>u v. u \<noteq> [] \<and> s = u @ v \<and> matches r u \<and> matches (Star r) v"
    then obtain u v where uv: "u \<noteq> []" "s = u @ v" "matches r u" "matches (Star r) v"
      by blast
    then have "length u \<in> set [1..<Suc (length s)]"
      by (cases u) (simp_all del: upt_Suc)
    moreover from uv
    have "matches r (take (length u) s) \<and> matches (Star r) (drop (length u) s)"
      by simp
    ultimately have "list_ex (\<lambda>i. matches r (take i s) \<and> matches (Star r) (drop i s))
        [1..<Suc (length s)]"
      unfolding list_ex_iff by blast
    then show ?thesis by (subst matches.simps(5)) blast
  qed
qed

lemma matches_Cls_iff: "matches (Cls c) s \<longleftrightarrow> (\<exists>x. s = [x] \<and> in_class c x)"
  by (auto split: list.splits)

lemma matches_Seq_Cls_iff:
  "matches (Seq (Cls c) r) s \<longleftrightarrow> (\<exists>x t. s = x # t \<and> in_class c x \<and> matches r t)"
proof
  assume "matches (Seq (Cls c) r) s"
  then obtain u v where uv: "s = u @ v" "matches (Cls c) u" "matches r v"
    unfolding matches_Seq_iff by blast
  from uv(2) obtain x where "u = [x]" "in_class c x"
    unfolding matches_Cls_iff by blast
  with uv(1,3) show "\<exists>x t. s = x # t \<and> in_class c x \<and> matches r t" by simp
next
  assume "\<exists>x t. s = x # t \<and> in_class c x \<and> matches r t"
  then obtain x t where xt: "s = x # t" "in_class c x" "matches r t" by blast
  then have "s = [x] @ t \<and> matches (Cls c) [x] \<and> matches r t" by simp
  then show "matches (Seq (Cls c) r) s"
    unfolding matches_Seq_iff by blast
qed

lemma matches_Opt_iff: "matches (Opt r) s \<longleftrightarrow> matches r s \<or> s = []"
  by (simp add: Opt_def)

lemma matches_Lit_iff: "matches (Lit l) s \<longleftrightarrow> s = l"
proof (induction l arbitrary: s)
  case Nil
  then show ?case by simp
next
  case (Cons c l)
  have "matches (Lit (c # l)) s \<longleftrightarrow> (\<exists>x t. s = x # t \<and> in_class [Ch c] x \<and> t = l)"
    unfolding Lit.simps matches_Seq_Cls_iff Cons.IH ..
  also have "\<dots> \<longleftrightarrow> s = c # l"
    by (auto simp: in_class_def)
  finally show ?case .
qed

lemma matches_Star_Cls_iff: "matches (Star (Cls c)) s \<longleftrightarrow> (\<forall>x \<in> set s. in_class c x)"
proof (induction s)
  case Nil
  then show ?case by (simp add: matches_Star_Nil)
next
  case (Cons a s)
  have "matches (Star (Cls c)) (a # s) \<longleftrightarrow> in_class c a \<and> matches (Star (Cls c)) s"
  proof
    assume m: "matches (Star (Cls c)) (a # s)"
    from matches_Star_iff [THEN iffD1, OF m]
    have "\<exists>u v. u \<noteq> [] \<and> a # s = u @ v \<and> matches (Cls c) u \<and> matches (Star (Cls c)) v"
      by simp
    then obtain u v where uv: "a # s = u @ v" "matches (Cls c) u" "matches (Star (Cls c)) v"
      by blast
    from uv(2) obtain x where "u = [x]" "in_class c x"
      unfolding matches_Cls_iff by blast
    with uv(1,3) show "in_class c a \<and> matches (Star (Cls c)) s" by simp
  next
    assume "in_class c a \<and> matches (Star (Cls c)) s"
    then have "[a] \<noteq> [] \<and> a # s = [a] @ s \<and> matches (Cls c) [a] \<and> matches (Star (Cls c)) s"
      by simp
    then have "a # s = [] \<or>
        (\<exists>u v. u \<noteq> [] \<and> a # s = u @ v \<and> matches (Cls c) u \<and> matches (Star (Cls c)) v)"
      by blast
    then show "matches (Star (Cls c)) (a # s)"
      by (rule matches_Star_iff [THEN iffD2])
  qed
  with Cons.IH show ?case by simp
qed

lemma matches_Plus1_Cls_iff:
  "matches (Plus1 (Cls c)) s \<longleftrightarrow> s \<noteq> [] \<and> (\<forall>x \<in> set s. in_class c x)"
  unfolding Plus1_def matches_Seq_Cls_iff matches_Star_Cls_iff
  by (cases s) simp_all

lemma matches_Star_Star_Cls_iff:
  "matches (Star (Star (Cls c))) s \<longleftrightarrow> (\<forall>x \<in> set s. in_class c x)"
proof
  show "matches (Star (Star (Cls c))) s \<Longrightarrow> \<forall>x \<in> set s. in_class c x"
  proof (induction "length s" arbitrary: s rule: less_induct)
    case less
    show ?case
    proof (cases "s = []")
      case True
      then show ?thesis by simp
    next
      case False
      from matches_Star_iff [THEN iffD1, OF less.prems] False
      obtain u v where uv: "u \<noteq> []" "s = u @ v"
        "matches (Star (Cls c)) u" "matches (Star (Star (Cls c))) v"
        by blast
      from uv(1,2) have "length v < length s" by simp
      with less.hyps uv(4) have "\<forall>x \<in> set v. in_class c x" by blast
      moreover from uv(3) have "\<forall>x \<in> set u. in_class c x"
        unfolding matches_Star_Cls_iff .
      ultimately show ?thesis using uv(2) by auto
    qed
  qed
next
  assume a: "\<forall>x \<in> set s. in_class c x"
  show "matches (Star (Star (Cls c))) s"
  proof (cases "s = []")
    case True
    then show ?thesis by (simp add: matches_Star_Nil)
  next
    case False
    have "matches (Star (Star (Cls c))) []" by (rule matches_Star_Nil)
    moreover from a have "matches (Star (Cls c)) s"
      unfolding matches_Star_Cls_iff .
    ultimately have "s \<noteq> [] \<and> s = s @ [] \<and> matches (Star (Cls c)) s \<and>
        matches (Star (Star (Cls c))) []"
      using False by simp
    then have "s = [] \<or> (\<exists>u v. u \<noteq> [] \<and> s = u @ v \<and> matches (Star (Cls c)) u \<and>
        matches (Star (Star (Cls c))) v)"
      by blast
    then show ?thesis by (rule matches_Star_iff [THEN iffD2])
  qed
qed


lemma matches_Rep0_Cls_iff:
  "matches (Rep 0 n (Cls c)) s \<longleftrightarrow> length s \<le> n \<and> (\<forall>x \<in> set s. in_class c x)"
proof (induction n arbitrary: s)
  case 0
  then show ?case by auto
next
  case (Suc n)
  have "matches (Rep 0 (Suc n) (Cls c)) s \<longleftrightarrow>
      (\<exists>x t. s = x # t \<and> in_class c x \<and> length t \<le> n \<and> (\<forall>x \<in> set t. in_class c x)) \<or> s = []"
    unfolding Rep.simps matches_Opt_iff matches_Seq_Cls_iff Suc.IH ..
  also have "\<dots> \<longleftrightarrow> length s \<le> Suc n \<and> (\<forall>x \<in> set s. in_class c x)"
    by (cases s) auto
  finally show ?case .
qed

lemma matches_Rep_Cls_iff:
  "m \<le> n \<Longrightarrow> matches (Rep m n (Cls c)) s \<longleftrightarrow>
     m \<le> length s \<and> length s \<le> n \<and> (\<forall>x \<in> set s. in_class c x)"
proof (induction m arbitrary: n s)
  case 0
  then show ?case by (simp add: matches_Rep0_Cls_iff)
next
  case (Suc m)
  from Suc.prems have le: "m \<le> n - 1" by simp
  have "matches (Rep (Suc m) n (Cls c)) s \<longleftrightarrow>
      (\<exists>x t. s = x # t \<and> in_class c x \<and>
         (m \<le> length t \<and> length t \<le> n - 1 \<and> (\<forall>x \<in> set t. in_class c x)))"
    unfolding Rep.simps matches_Seq_Cls_iff Suc.IH [OF le] ..
  also have "\<dots> \<longleftrightarrow> Suc m \<le> length s \<and> length s \<le> n \<and> (\<forall>x \<in> set s. in_class c x)"
    using Suc.prems by (cases s) auto
  finally show ?case .
qed

lemma matches_scheme_iff:
  "matches scheme_re s \<longleftrightarrow> s = js ''http://'' \<or> s = js ''https://''"
proof -
  have "matches scheme_re s \<longleftrightarrow>
      (\<exists>u v. s = u @ v \<and> u = js ''http'' \<and>
         (\<exists>ua va. v = ua @ va \<and> (ua = js ''s'' \<or> ua = []) \<and> va = js ''://''))"
    unfolding scheme_re_def matches_Seq_iff matches_Opt_iff matches_Lit_iff ..
  also have "\<dots> \<longleftrightarrow> s = js ''http'' @ js ''s'' @ js ''://'' \<or> s = js ''http'' @ js ''://''"
    by auto
  also have "\<dots> \<longleftrightarrow> s = js ''http://'' \<or> s = js ''https://''"
    by (auto simp: js_def)
  finally show ?thesis .
qed

lemma isUrl_iff:
  "isUrl q \<longleftrightarrow> (\<exists>sch h t p e. q = sch @ h @ [0x2E] @ t @ p @ e \<and> url_shape sch h t p e)"
proof
  assume "isUrl q"
  then obtain sch r1 where 1: "q = sch @ r1" "matches (Opt scheme_re) sch"
    and m1: "matches (Seq (Plus1 (Cls host_class))
        (Seq (Cls [Ch 0x2E]) (Seq (Rep 2 6 (Cls tld_class))
        (Seq (Star (Star (Cls path_class))) (Opt (Cls [Ch 0x2F])))))) r1"
    unfolding isUrl_def isUrl_re_def matches_Seq_iff [of "Opt scheme_re"] by blast
  from m1 obtain h r2 where 2: "r1 = h @ r2" "matches (Plus1 (Cls host_class)) h"
    and m2: "matches (Seq (Cls [Ch 0x2E]) (Seq (Rep 2 6 (Cls tld_class))
        (Seq (Star (Star (Cls path_class))) (Opt (Cls [Ch 0x2F]))))) r2"
    unfolding matches_Seq_iff [of "Plus1 (Cls host_class)"] by blast
  from m2 obtain x r3 where 3: "r2 = x # r3" "in_class [Ch 0x2E] x"
    and m3: "matches (Seq (Rep 2 6 (Cls tld_class))
        (Seq (Star (Star (Cls path_class))) (Opt (Cls [Ch 0x2F])))) r3"
    unfolding matches_Seq_Cls_iff by blast
  from m3 obtain t r4 where 4: "r3 = t @ r4" "matches (Rep 2 6 (Cls tld_class)) t"
    and m4: "matches (Seq (Star (Star (Cls path_class))) (Opt (Cls [Ch 0x2F]))) r4"
    unfolding matches_Seq_iff [of "Rep 2 6 (Cls tld_class)"] by blast
  from m4 obtain p e where 5: "r4 = p @ e" "matches (Star (Star (Cls path_class))) p"
    "matches (Opt (Cls [Ch 0x2F])) e"
    unfolding matches_Seq_iff by blast
  from 3(2) have x: "x = 0x2E" by (simp add: in_class_def)
  from 1(1) 2(1) 3(1) 4(1) 5(1) x have q: "q = sch @ h @ [0x2E] @ t @ p @ e" by simp
  from 1(2) have a: "sch = [] \<or> sch = js ''http://'' \<or> sch = js ''https://''"
    unfolding matches_Opt_iff matches_scheme_iff by blast
  from 2(2) have b: "h \<noteq> [] \<and> (\<forall>x \<in> set h. in_class host_class x)"
    unfolding matches_Plus1_Cls_iff .
  from 4(2) have c: "2 \<le> length t \<and> length t \<le> 6 \<and> (\<forall>x \<in> set t. in_class tld_class x)"
    by (simp add: matches_Rep_Cls_iff)
  from 5(2) have d: "\<forall>x \<in> set p. in_class path_class x"
    unfolding matches_Star_Star_Cls_iff .
  from 5(3) have e: "e = [] \<or> e = [0x2F]"
    unfolding matches_Opt_iff matches_Cls_iff by (auto simp: in_class_def)
  from a b c d e have "url_shape sch h t p e"
    unfolding url_shape_def by blast
  with q show "\<exists>sch h t p e. q = sch @ h @ [0x2E] @ t @ p @ e \<and> url_shape sch h t p e"
    by blast
next
  assume "\<exists>sch h t p e. q = sch @ h @ [0x2E] @ t @ p @ e \<and> url_shape sch h t p e"
  then obtain sch h t p e where q: "q = sch @ h @ [0x2E] @ t @ p @ e"
    and s: "url_shape sch h t p e" by blast
  from s have 1: "matches (Opt scheme_re) sch"
    unfolding matches_Opt_iff matches_scheme_iff url_shape_def by blast
  from s have 2: "matches (Plus1 (Cls host_class)) h"
    unfolding matches_Plus1_Cls_iff url_shape_def by blast
  from s have 4: "matches (Rep 2 6 (Cls tld_class)) t"
    by (simp add: matches_Rep_Cls_iff url_shape_def)
  from s have 5: "matches (Star (Star (Cls path_class))) p"
    unfolding matches_Star_Star_Cls_iff url_shape_def by blast
  from s have 6: "matches (Opt (Cls [Ch 0x2F])) e"
    unfolding matches_Opt_iff matches_Cls_iff url_shape_def by (auto simp: in_class_def)
  from 5 6 have m4: "matches (Seq (Star (Star (Cls path_class))) (Opt (Cls [Ch 0x2F]))) (p @ e)"
    unfolding matches_Seq_iff by blast
  from 4 m4 have m3: "matches (Seq (Rep 2 6 (Cls tld_class))
      (Seq (Star (Star (Cls path_class))) (Opt (Cls [Ch 0x2F])))) (t @ p @ e)"
    unfolding matches_Seq_iff [of "Rep 2 6 (Cls tld_class)"] by blast
  have "in_class [Ch 0x2E] 0x2E" by (simp add: in_class_def)
  with m3 have m2: "matches (Seq (Cls [Ch 0x2E]) (Seq (Rep 2 6 (Cls tld_class))
      (Seq (Star (Star (Cls path_class))) (Opt (Cls [Ch 0x2F]))))) ([0x2E] @ t @ p @ e)"
    unfolding matches_Seq_Cls_iff by simp
  from 2 m2 have m1: "matches (Seq (Plus1 (Cls host_class))
      (Seq (Cls [Ch 0x2E]) (Seq (Rep 2 6 (Cls tld_class))
      (Seq (Star (Star (Cls path_class))) (Opt (Cls [Ch 0x2F])))))) (h @ [0x2E] @ t @ p @ e)"
    unfolding matches_Seq_iff [of "Plus1 (Cls host_class)"] by blast
  from 1 m1 q show "isUrl q"
    unfolding isUrl_def isUrl_re_def matches_Seq_iff [of "Opt scheme_re"] by blast
qed

section \<open>Facts about isUrl and encodeURIComponent\<close>

lemma has_tld_append:
  "2 \<le> length t \<Longrightarrow> \<forall>x \<in> set t. in_class tld_class x \<Longrightarrow> has_tld (pre @ [0x2E] @ t @ rest)"
proof (induction pre)
  case Nil
  then obtain d e t' where "t = d # e # t'"
    by (cases t; cases "tl t") auto
  with Nil show ?case by simp
next
  case (Cons a pre)
  then show ?case by simp
qed

lemma has_tld_dot: "has_tld q \<Longrightarrow> 0x2E \<in> set q"
  by (induction q) auto

lemma isUrl_has_tld: "isUrl q \<Longrightarrow> has_tld q"
proof -
  assume "isUrl q"
  then obtain sch h t p e where q: "q = sch @ h @ [0x2E] @ t @ p @ e"
    and s: "url_shape sch h t p e"
    unfolding isUrl_iff by blast
  from s have "2 \<le> length t" "\<forall>x \<in> set t. in_class tld_class x"
    unfolding url_shape_def by blast+
  then have "has_tld ((sch @ h) @ [0x2E] @ t @ (p @ e))"
    by (rule has_tld_append)
  with q show ?thesis by simp
qed

lemma url_shape_no_space:
  assumes "url_shape sch h t p e"
  shows "\<forall>x \<in> set (sch @ h @ [0x2E] @ t). x \<noteq> 0x20"
proof -
  have host: "\<not> in_class host_class 0x20"
    by (simp add: in_class_def host_class_def)
  have tld: "\<not> in_class tld_class 0x20"
    by (simp add: in_class_def tld_class_def)
  have sch: "0x20 \<notin> set (js ''http://'')" "0x20 \<notin> set (js ''https://'')"
    by (simp_all add: js_def)
  from assms have "0x20 \<notin> set sch"
    unfolding url_shape_def using sch by auto
  moreover from assms host have "0x20 \<notin> set h"
    unfolding url_shape_def by blast
  moreover from assms tld have "0x20 \<notin> set t"
    unfolding url_shape_def by blast
  ultimately show ?thesis by auto
qed

lemma isUrl_before_space: "isUrl q \<Longrightarrow> isUrl (takeWhile (\<lambda>c. c \<noteq> 0x20) q)"
proof -
  assume "isUrl q"
  then obtain sch h t p e where q: "q = sch @ h @ [0x2E] @ t @ p @ e"
    and s: "url_shape sch h t p e"
    unfolding isUrl_iff by blast
  let ?P = "\<lambda>c::code_unit. c \<noteq> 0x20"
  let ?p = "takeWhile ?P (p @ e)"
  from url_shape_no_space [OF s]
  have "takeWhile ?P ((sch @ h @ [0x2E] @ t) @ (p @ e)) = (sch @ h @ [0x2E] @ t) @ ?p"
    by (intro takeWhile_append2) blast
  with q have eq: "takeWhile ?P q = sch @ h @ [0x2E] @ t @ ?p @ []" by simp
  have slash: "in_class path_class 0x2F"
    by (simp add: in_class_def path_class_def)
  from s slash have "\<forall>x \<in> set (p @ e). in_class path_class x"
    unfolding url_shape_def by auto
  then have "\<forall>x \<in> set ?p. in_class path_class x"
    by (meson set_takeWhileD)
  with s have "url_shape sch h t ?p []"
    unfolding url_shape_def by blast
  with eq show ?thesis
    unfolding isUrl_iff by blast
qed

lemma matches_prefix_scheme_iff:
  "matches_prefix scheme_re u \<longleftrightarrow>
     startsWith u (js ''http://'') \<or> startsWith u (js ''https://'')"
proof
  assume "matches_prefix scheme_re u"
  then obtain i where "matches scheme_re (take i u)"
    unfolding matches_prefix_def list_ex_iff by blast
  then have "take i u = js ''http://'' \<or> take i u = js ''https://''"
    unfolding matches_scheme_iff .
  then show "startsWith u (js ''http://'') \<or> startsWith u (js ''https://'')"
    unfolding startsWith_def
    by (metis append_eq_conv_conj append_take_drop_id)
next
  assume "startsWith u (js ''http://'') \<or> startsWith u (js ''https://'')"
  then obtain l where l: "l = js ''http://'' \<or> l = js ''https://''" "take (length l) u = l"
    unfolding startsWith_def by blast
  then have "matches scheme_re (take (length l) u)"
    unfolding matches_scheme_iff by auto
  moreover from l(2) have "length (take (length l) u) = length l"
    by simp
  then have "length l \<le> length u"
    by (simp add: min_def split: if_splits)
  then have "length l \<in> set [0..<Suc (length u)]" by (simp del: upt_Suc)
  ultimately show "matches_prefix scheme_re u"
    unfolding matches_prefix_def list_ex_iff by blast
qed

lemma unreserved_not_surrogate:
  "uriUnreserved c \<Longrightarrow> \<not> isLeadingSurrogate c \<and> \<not> isTrailingSurrogate c"
  unfolding uriUnreserved_def isLeadingSurrogate_def isTrailingSurrogate_def js_def
  by (auto simp: word_le_nat_alt)

lemma encodeURIComponent_wellFormed:
  "(\<exists>r. encodeURIComponent q = Some r) \<longleftrightarrow> isWellFormed q"
proof (induction q rule: encodeURIComponent.induct)
  case 1
  then show ?case by simp
next
  case (2 c cs)
  show ?case
  proof (cases "uriUnreserved c")
    case True
    with 2(1) unreserved_not_surrogate [OF True] show ?thesis by simp
  next
    case False
    note nu = False
    show ?thesis
    proof (cases "isLeadingSurrogate c")
      case True
      show ?thesis
      proof (cases cs)
        case Nil
        with nu True show ?thesis by simp
      next
        case (Cons d ds)
        with nu True 2(2) [OF nu True Cons] show ?thesis by simp
      qed
    next
      case False
      with nu 2(3) [OF nu False] show ?thesis by simp
    qed
  qed
qed

text \<open>The matcher run on the two URLs of the examples.\<close>

lemma isUrl_example: "isUrl (js ''https://example.com'')"
  by code_simp

lemma isUrl_bare_example: "isUrl (js ''example.com'')"
  by code_simp


section \<open>Facts about the sort and the fetches\<close>

lemma set_insert_sorted: "set (insert_sorted cmp x ys) = insert x (set ys)"
  by (induction ys) auto

lemma mset_insert_sorted: "mset (insert_sorted cmp x ys) = add_mset x (mset ys)"
  by (induction ys) auto

lemma mset_array_sort: "mset (array_sort cmp xs) = mset xs"
  by (induction xs) (simp_all add: array_sort_def mset_insert_sorted)

lemma newest_first_insert:
  "newest_first ys \<Longrightarrow> newest_first (insert_sorted byLastAccessed x ys)"
proof (induction ys)
  case Nil
  then show ?case by (simp add: newest_first_def)
next
  case (Cons y ys)
  then show ?case
    by (auto simp: newest_first_def byLastAccessed_def set_insert_sorted)
qed

lemma newest_first_array_sort: "newest_first (array_sort byLastAccessed xs)"
proof (induction xs)
  case Nil
  then show ?case by (simp add: array_sort_def newest_first_def)
next
  case (Cons x xs)
  then show ?case
    using newest_first_insert [of "array_sort byLastAccessed xs" x]
    by (simp add: array_sort_def)
qed

lemma insert_sorted_front:
  "newest_first (x # ys) \<Longrightarrow> insert_sorted byLastAccessed x ys = x # ys"
  by (cases ys) (simp_all add: newest_first_def byLastAccessed_def)

lemma array_sort_fixed: "newest_first xs \<Longrightarrow> array_sort byLastAccessed xs = xs"
proof (induction xs)
  case Nil
  then show ?case by (simp add: array_sort_def)
next
  case (Cons x xs)
  from Cons.prems have "newest_first xs"
    by (simp add: newest_first_def)
  with Cons.IH have "array_sort byLastAccessed xs = xs" .
  with Cons.prems show ?case
    by (simp add: array_sort_def insert_sorted_front)
qed

text \<open>The fetches of the closed tabs, of the history and of the bookmarks catch what the
  host raises: their promise is never rejected, and the slot is emptied.\<close>

lemma fetches_catch:
  "rejected (fetchRecentlyClosedTabs h st) = None \<and>
   rejected (fetchHistoryItems h q st) = None \<and>
   rejected (fetchBookmarkItems h st) = None"
  by (simp add: fetchRecentlyClosedTabs_def fetchHistoryItems_def fetchBookmarkItems_def
      split: option.splits sum.splits)

lemma fetches_reset:
  "(sessions_getRecentlyClosed h = Some (Inl e) \<longrightarrow>
      recentlyClosedTabs (after (fetchRecentlyClosedTabs h st)) = [] \<and>
      sessionsError (after (fetchRecentlyClosedTabs h st)) = sessions_failed) \<and>
   (history_search h q = Inl e \<longrightarrow> historyItems (after (fetchHistoryItems h q st)) = []) \<and>
   (bookmarks_search h (searchValue st) = Inl e \<and> bookmarks_getRecent h = Inl e \<longrightarrow>
      bookmarkItems (after (fetchBookmarkItems h st)) = [])"
  by (simp add: fetchRecentlyClosedTabs_def fetchHistoryItems_def fetchBookmarkItems_def)

lemma calls_create_and_close:
  "calls (create_and_close h u st) =
     [TabsCreate u] @ (if tabs_create h u = None then [WindowClose] else [])"
  by (simp add: create_and_close_def split: option.splits)

lemma after_create_and_close: "after (create_and_close h u st) = st"
  by (simp add: create_and_close_def split: option.splits)

lemmas enc_defs = uriUnreserved_def isLeadingSurrogate_def isTrailingSurrogate_def
  UTF16SurrogatePairToCodePoint_def utf8_def hexDigit_def percentEscape_def
  escapeCodePoint_def js_def

section \<open>Properties of the filter buttons\<close>

text \<open>
  Claim C1. After \<open>handleFilterClick\<close> the invariant holds (from a state that satisfies
  it, and in fact from any state): \<open>all\<close> is set exactly when no specific flag is.
  Switching a specific filter on clears \<open>all\<close>; switching the only active specific filter
  off sets \<open>all\<close> again; and toggling a specific filter twice from the all-active state
  gives the all-active state back.
\<close>

theorem handleFilterClick_invariant:
  "(filters_inv f \<longrightarrow> filters_inv (handleFilterClick x f)) \<and>
   (x \<noteq> FAll \<and> \<not> flag x f \<longrightarrow>
      \<not> all (handleFilterClick x f) \<and> flag x (handleFilterClick x f)) \<and>
   (x \<noteq> FAll \<and> flag x f \<and> (\<forall>y. y \<noteq> FAll \<and> y \<noteq> x \<longrightarrow> \<not> flag y f) \<longrightarrow>
      handleFilterClick x f = initial_filters) \<and>
   (x \<noteq> FAll \<longrightarrow>
      handleFilterClick x (handleFilterClick x initial_filters) = initial_filters)"
proof (intro conjI impI)
  show "filters_inv (handleFilterClick x f)"
    by (cases x) (auto simp: filters_inv_def handleFilterClick_def Let_def)
next
  assume "x \<noteq> FAll \<and> \<not> flag x f"
  then show "\<not> all (handleFilterClick x f)"
    by (cases x) (auto simp: handleFilterClick_def Let_def)
next
  assume "x \<noteq> FAll \<and> \<not> flag x f"
  then show "flag x (handleFilterClick x f)"
    by (cases x) (auto simp: handleFilterClick_def Let_def)
next
  assume a: "x \<noteq> FAll \<and> flag x f \<and> (\<forall>y. y \<noteq> FAll \<and> y \<noteq> x \<longrightarrow> \<not> flag y f)"
  then have others: "\<And>y. y \<noteq> FAll \<Longrightarrow> y \<noteq> x \<Longrightarrow> \<not> flag y f"
    by blast
  show "handleFilterClick x f = initial_filters"
  proof (cases x)
    case FAll
    with a show ?thesis by simp
  next
    case FTab
    with a others [of FHistory] others [of FBookmark] show ?thesis
      by (simp add: handleFilterClick_def Let_def initial_filters_def)
  next
    case FHistory
    with a others [of FTab] others [of FBookmark] show ?thesis
      by (simp add: handleFilterClick_def Let_def initial_filters_def)
  next
    case FBookmark
    with a others [of FTab] others [of FHistory] show ?thesis
      by (simp add: handleFilterClick_def Let_def initial_filters_def)
  qed
next
  assume "x \<noteq> FAll"
  then show "handleFilterClick x (handleFilterClick x initial_filters) = initial_filters"
    by (cases x) (simp_all add: handleFilterClick_def Let_def initial_filters_def)
qed

theorem handleFilterClick_invariant_witness:
  "filters_inv initial_filters \<and>
   filters_inv (handleFilterClick FTab initial_filters) \<and>
   \<not> all (handleFilterClick FTab initial_filters) \<and>
   tab (handleFilterClick FTab initial_filters) \<and>
   handleFilterClick FTab \<lparr>all = False, tab = True, history = False, bookmark = False\<rparr>
     = initial_filters \<and>
   handleFilterClick FTab (handleFilterClick FTab initial_filters) = initial_filters"
proof -
  have inv0: "filters_inv initial_filters"
    by (simp add: filters_inv_def initial_filters_def)
  have off: "\<not> flag FTab initial_filters"
    by (simp add: initial_filters_def)
  have only: "FTab \<noteq> FAll \<and> flag FTab \<lparr>all = False, tab = True, history = False, bookmark = False\<rparr> \<and>
      (\<forall>y. y \<noteq> FAll \<and> y \<noteq> FTab \<longrightarrow>
         \<not> flag y \<lparr>all = False, tab = True, history = False, bookmark = False\<rparr>)"
  proof (intro conjI allI impI)
    fix y :: filter_name
    assume "y \<noteq> FAll \<and> y \<noteq> FTab"
    then show "\<not> flag y \<lparr>all = False, tab = True, history = False, bookmark = False\<rparr>"
      by (cases y) simp_all
  qed simp_all
  from handleFilterClick_invariant [of initial_filters FTab] inv0 off
  have a: "filters_inv (handleFilterClick FTab initial_filters) \<and>
      \<not> all (handleFilterClick FTab initial_filters) \<and>
      tab (handleFilterClick FTab initial_filters) \<and>
      handleFilterClick FTab (handleFilterClick FTab initial_filters) = initial_filters"
    by simp
  from handleFilterClick_invariant
    [of "\<lparr>all = False, tab = True, history = False, bookmark = False\<rparr>" FTab] only
  have b: "handleFilterClick FTab \<lparr>all = False, tab = True, history = False, bookmark = False\<rparr>
      = initial_filters"
    by blast
  from inv0 a b show ?thesis by blast
qed

section \<open>Properties of the result groups\<close>

text \<open>
  Claim C2. The Opened Tabs group holds exactly the fetched tabs that are not the active
  tab and are not media tabs (audible or muted), in the order of the fetched list; so it
  never holds the active tab and shares no tab with the Media Tabs group.
\<close>

theorem activeTabs_exact:
  "activeTabs st =
     filter (\<lambda>t. \<not> truthy_bool (active t) \<and> t \<notin> set (mediaTabs st)) (openTabs st) \<and>
   mediaTabs st = filter audible_or_muted (openTabs st) \<and>
   (\<forall>t \<in> set (activeTabs st). \<not> truthy_bool (active t)) \<and>
   set (activeTabs st) \<inter> set (mediaTabs st) = {}"
proof -
  have "activeTabs st =
     filter (\<lambda>t. \<not> truthy_bool (active t) \<and> t \<notin> set (mediaTabs st)) (openTabs st)"
    unfolding activeTabs_def mediaTabs_def
    by (rule filter_cong) (auto simp: audible_or_muted_def)
  moreover have "mediaTabs st = filter audible_or_muted (openTabs st)"
    by (simp add: mediaTabs_def)
  moreover have "\<forall>t \<in> set (activeTabs st). \<not> truthy_bool (active t)"
    by (simp add: activeTabs_def)
  moreover have "set (activeTabs st) \<inter> set (mediaTabs st) = {}"
    by (auto simp: activeTabs_def mediaTabs_def audible_or_muted_def)
  ultimately show ?thesis by blast
qed

theorem activeTabs_exact_witness:
  "activeTabs (initial_state\<lparr>openTabs :=
      [sample_tab 1 None True False False, sample_tab 2 None False True False,
       sample_tab 3 None False False True, sample_tab 4 None False False False]\<rparr>)
     = [sample_tab 4 None False False False] \<and>
   mediaTabs (initial_state\<lparr>openTabs :=
      [sample_tab 1 None True False False, sample_tab 2 None False True False,
       sample_tab 3 None False False True, sample_tab 4 None False False False]\<rparr>)
     = [sample_tab 2 None False True False, sample_tab 3 None False False True]"
  using activeTabs_exact [of "initial_state\<lparr>openTabs :=
      [sample_tab 1 None True False False, sample_tab 2 None False True False,
       sample_tab 3 None False False True, sample_tab 4 None False False False]\<rparr>"]
  by (simp add: mediaTabs_def audible_or_muted_def sample_tab_def initial_state_def)

section \<open>Properties of the fetches\<close>

text \<open>
  Claim C3. A fetch whose host call raises catches the error and empties its slot. The
  fetch of the open tabs does not: with a host whose \<^verbatim>\<open>tabs.query\<close> is rejected,
  \<open>fetchOpenTabs\<close> is rejected with the same error and leaves the open tabs as they
  were (the other three fetches do catch: \<open>fetches_catch\<close>, \<open>fetches_reset\<close>).
\<close>

theorem fetchOpenTabs_propagates:
  "fetchOpenTabs (quiet_host\<lparr>tabs_query := Inl (HostError (js ''gone''))\<rparr>)
     (initial_state\<lparr>openTabs := [sample_tab 1 None False False False]\<rparr>)
   = \<lparr>calls = [TabsQuery], rejected = Some (HostError (js ''gone'')),
      after = initial_state\<lparr>openTabs := [sample_tab 1 None False False False]\<rparr>\<rparr>"
  by (simp add: fetchOpenTabs_def quiet_host_def)

text \<open>
  Claim C8. When the host answers the query, \<open>fetchOpenTabs\<close> stores the fetched tabs
  (the same tabs, each as often as fetched) in descending order of the last-accessed
  time, a missing time counting as 0; fetching again from the unchanged host gives the
  same state, and sorting the stored list again changes nothing.
\<close>

theorem fetchOpenTabs_sorted:
  assumes "tabs_query h = Inr tabs"
  shows "rejected (fetchOpenTabs h st) = None \<and>
    newest_first (openTabs (after (fetchOpenTabs h st))) \<and>
    mset (openTabs (after (fetchOpenTabs h st))) = mset tabs \<and>
    after (fetchOpenTabs h (after (fetchOpenTabs h st))) = after (fetchOpenTabs h st) \<and>
    array_sort byLastAccessed (openTabs (after (fetchOpenTabs h st)))
      = openTabs (after (fetchOpenTabs h st))"
  using assms
  by (simp add: fetchOpenTabs_def newest_first_array_sort mset_array_sort array_sort_fixed)

theorem fetchOpenTabs_sorted_witness:
  "openTabs (after (fetchOpenTabs
      (quiet_host\<lparr>tabs_query := Inr [sample_tab 1 (Some 5) False False False,
         sample_tab 2 None False False False, sample_tab 3 (Some 9) True False False,
         sample_tab 4 (Some 5) False False False]\<rparr>) initial_state))
   = [sample_tab 3 (Some 9) True False False, sample_tab 1 (Some 5) False False False,
      sample_tab 4 (Some 5) False False False, sample_tab 2 None False False False] \<and>
   newest_first [sample_tab 3 (Some 9) True False False, sample_tab 1 (Some 5) False False False,
      sample_tab 4 (Some 5) False False False, sample_tab 2 None False False False]"
proof -
  let ?h = "quiet_host\<lparr>tabs_query := Inr [sample_tab 1 (Some 5) False False False,
         sample_tab 2 None False False False, sample_tab 3 (Some 9) True False False,
         sample_tab 4 (Some 5) False False False]\<rparr>"
  have q: "tabs_query ?h = Inr [sample_tab 1 (Some 5) False False False,
         sample_tab 2 None False False False, sample_tab 3 (Some 9) True False False,
         sample_tab 4 (Some 5) False False False]"
    by simp
  have v: "openTabs (after (fetchOpenTabs ?h initial_state))
     = [sample_tab 3 (Some 9) True False False, sample_tab 1 (Some 5) False False False,
      sample_tab 4 (Some 5) False False False, sample_tab 2 None False False False]"
    by (simp add: fetchOpenTabs_def array_sort_def byLastAccessed_def lastAccessedOr0_def
        sample_tab_def)
  from fetchOpenTabs_sorted [OF q, of initial_state] v show ?thesis
    by simp
qed

section \<open>Properties of the actions\<close>

text \<open>
  Claim C9. With the empty query \<open>handleSearch\<close> does nothing, whatever the search
  engine: no call at all (no tab created, the popup not closed), no rejection, the state
  unchanged. A tab is created only when the query is not empty.
\<close>

theorem handleSearch_empty:
  "(searchValue st = [] \<longrightarrow>
      handleSearch h searchEngine st = \<lparr>calls = [], rejected = None, after = st\<rparr>) \<and>
   (TabsCreate u \<in> set (calls (handleSearch h searchEngine st)) \<longrightarrow> searchValue st \<noteq> [])"
  by (auto simp: handleSearch_def)

theorem handleSearch_empty_witness:
  "handleSearch quiet_host (js ''bing'') initial_state
     = \<lparr>calls = [], rejected = None, after = initial_state\<rparr> \<and>
   TabsCreate (js ''https://www.bing.com/search?q=a%20b'')
     \<in> set (calls (handleSearch quiet_host (js ''bing'') (with_query ''a b''))) \<and>
   searchValue (with_query ''a b'') \<noteq> []"
proof -
  have e: "searchValue initial_state = []"
    by (simp add: initial_state_def)
  have c: "TabsCreate (js ''https://www.bing.com/search?q=a%20b'')
     \<in> set (calls (handleSearch quiet_host (js ''bing'') (with_query ''a b'')))"
    by (simp add: handleSearch_def with_query_def initial_state_def searchUrl_prefix_def
        create_and_close_def quiet_host_def enc_defs)
  from handleSearch_empty [of initial_state quiet_host "js ''bing''"] e
    handleSearch_empty [of "with_query ''a b''" quiet_host "js ''bing''"
      "js ''https://www.bing.com/search?q=a%20b''"] c
  show ?thesis by blast
qed

text \<open>
  Claim C10. Selecting an item that lacks the field its action needs makes no call: a
  tab without \<^verbatim>\<open>id\<close> does not reach \<open>switchToTab\<close>; a closed tab, a bookmark or a
  history item without \<^verbatim>\<open>url\<close> does not reach \<open>reopenTab\<close>. The state is unchanged
  and the popup stays open (no \<open>WindowClose\<close>).
\<close>

theorem onSelect_missing_field:
  "(tab_id t = None \<longrightarrow>
      onSelect_tab h t st = \<lparr>calls = [], rejected = None, after = st\<rparr>) \<and>
   (url t = None \<longrightarrow>
      onSelect_closed h t st = \<lparr>calls = [], rejected = None, after = st\<rparr>) \<and>
   (b_url b = None \<longrightarrow>
      onSelect_bookmark h b st = \<lparr>calls = [], rejected = None, after = st\<rparr>) \<and>
   (h_url i = None \<longrightarrow>
      onSelect_history h i st = \<lparr>calls = [], rejected = None, after = st\<rparr>)"
  by (simp add: onSelect_tab_def onSelect_closed_def onSelect_bookmark_def onSelect_history_def)

theorem onSelect_missing_field_witness:
  "onSelect_tab quiet_host ((sample_tab 1 None False False False)\<lparr>tab_id := None\<rparr>) initial_state
     = \<lparr>calls = [], rejected = None, after = initial_state\<rparr> \<and>
   onSelect_closed quiet_host ((sample_tab 1 None False False False)\<lparr>url := None\<rparr>) initial_state
     = \<lparr>calls = [], rejected = None, after = initial_state\<rparr> \<and>
   onSelect_bookmark quiet_host
     \<lparr>b_id = js ''7'', b_url = None, b_title = js ''Folder'', dateAdded = None\<rparr> initial_state
     = \<lparr>calls = [], rejected = None, after = initial_state\<rparr> \<and>
   onSelect_history quiet_host
     \<lparr>h_id = js ''8'', h_url = None, h_title = None, lastVisitTime = None, visitCount = None,
      typedCount = None\<rparr> initial_state
     = \<lparr>calls = [], rejected = None, after = initial_state\<rparr> \<and>
   calls (onSelect_tab quiet_host (sample_tab 1 None False False False) initial_state)
     = [TabsUpdateActive 1, WindowsGetCurrent, WindowsUpdateFocused (Some 1), WindowClose]"
proof -
  have v: "calls (onSelect_tab quiet_host (sample_tab 1 None False False False) initial_state)
     = [TabsUpdateActive 1, WindowsGetCurrent, WindowsUpdateFocused (Some 1), WindowClose]"
    by (simp add: onSelect_tab_def switchToTab_def sample_tab_def quiet_host_def)
  from onSelect_missing_field
    [of "(sample_tab 1 None False False False)\<lparr>tab_id := None\<rparr>" quiet_host initial_state
      "\<lparr>b_id = js ''7'', b_url = None, b_title = js ''Folder'', dateAdded = None\<rparr>"
      "\<lparr>h_id = js ''8'', h_url = None, h_title = None, lastVisitTime = None,
        visitCount = None, typedCount = None\<rparr>"]
    onSelect_missing_field
    [of "(sample_tab 1 None False False False)\<lparr>url := None\<rparr>" quiet_host initial_state
      "\<lparr>b_id = js ''7'', b_url = None, b_title = js ''Folder'', dateAdded = None\<rparr>"
      "\<lparr>h_id = js ''8'', h_url = None, h_title = None, lastVisitTime = None,
        visitCount = None, typedCount = None\<rparr>"]
    v
  show ?thesis by simp
qed

section \<open>Properties of extractDomain\<close>

text \<open>
  Claim C6, as the code has it. \<open>extractDomain\<close> returns on every text: a text that
  starts with \<^verbatim>\<open>about:\<close> comes back unchanged, a text the URL parser refuses comes back
  unchanged, and any other text gives the parsed host name, whatever its scheme.
\<close>

theorem extractDomain_total:
  "(startsWith u (js ''about:'') \<longrightarrow> extractDomain new_URL u = u) \<and>
   (new_URL u = None \<longrightarrow> extractDomain new_URL u = u) \<and>
   (\<not> startsWith u (js ''about:'') \<and> new_URL u = Some parsed \<longrightarrow>
      extractDomain new_URL u = hostname parsed)"
  by (simp add: extractDomain_def)

theorem extractDomain_total_witness:
  "extractDomain example_new_URL (js ''about:blank'') = js ''about:blank'' \<and>
   extractDomain example_new_URL (js ''not a url'') = js ''not a url'' \<and>
   extractDomain example_new_URL (js ''https://example.com/a'') = js ''example.com''"
proof -
  have a: "startsWith (js ''about:blank'') (js ''about:'')"
    by (simp add: startsWith_def js_def)
  have b: "example_new_URL (js ''not a url'') = None"
    by (simp add: example_new_URL_def js_def)
  have c: "\<not> startsWith (js ''https://example.com/a'') (js ''about:'') \<and>
      example_new_URL (js ''https://example.com/a'') = Some \<lparr>hostname = js ''example.com''\<rparr>"
    by (simp add: startsWith_def example_new_URL_def js_def)
  from extractDomain_total [of "js ''about:blank''" example_new_URL] a
    extractDomain_total [of "js ''not a url''" example_new_URL] b
    extractDomain_total [of "js ''https://example.com/a''" example_new_URL
      "\<lparr>hostname = js ''example.com''\<rparr>"] c
  show ?thesis by simp
qed

text \<open>
  Claim C6 as the spec states it fails: an ftp URL starts with a scheme that is not
  http, and \<open>extractDomain\<close> gives its parsed host name, which is neither the URL nor
  a prefix of it.
\<close>

theorem extractDomain_ftp_counterexample:
  "\<not> matches_prefix scheme_re (js ''ftp://example.com/x'') \<and>
   extractDomain example_new_URL (js ''ftp://example.com/x'') = js ''example.com'' \<and>
   js ''example.com'' \<noteq> js ''ftp://example.com/x'' \<and>
   \<not> startsWith (js ''ftp://example.com/x'') (js ''example.com'')"
proof -
  have "\<not> matches_prefix scheme_re (js ''ftp://example.com/x'')"
    unfolding matches_prefix_scheme_iff by (simp add: startsWith_def js_def)
  moreover have "extractDomain example_new_URL (js ''ftp://example.com/x'') = js ''example.com''"
    by (simp add: extractDomain_def example_new_URL_def startsWith_def js_def)
  moreover have "js ''example.com'' \<noteq> js ''ftp://example.com/x''"
    by (simp add: js_def)
  moreover have "\<not> startsWith (js ''ftp://example.com/x'') (js ''example.com'')"
    by (simp add: startsWith_def js_def)
  ultimately show ?thesis by blast
qed

section \<open>Properties of the keyboard\<close>

text \<open>
  Claim C7, as the code has it. With Ctrl or Cmd held, the key 1, 2, 3 or 4 clicks the
  filter all, tab, history or bookmark and the event is consumed (default prevented,
  propagation stopped), whatever the other modifiers: the handler does not read Shift or
  Alt for these keys. A key other than Enter, 1, 2, 3, 4, and any key without Ctrl or Cmd,
  makes no call and changes nothing: the event falls through.
\<close>

theorem handleKeyDown_filters:
  "((ctrlKey e \<or> metaKey e) \<and>
      (key e, flt) \<in> set [(js ''1'', FAll), (js ''2'', FTab), (js ''3'', FHistory),
                          (js ''4'', FBookmark)] \<longrightarrow>
      handleKeyDown h e st =
        \<lparr>calls = [PreventDefault, StopPropagation], rejected = None,
         after = st\<lparr>filters := handleFilterClick flt (filters st)\<rparr>\<rparr>) \<and>
   (\<not> (ctrlKey e \<or> metaKey e) \<or>
      key e \<notin> set [js ''Enter'', js ''1'', js ''2'', js ''3'', js ''4''] \<longrightarrow>
      handleKeyDown h e st = \<lparr>calls = [], rejected = None, after = st\<rparr>)"
  by (auto simp: handleKeyDown_def consume_and_click_def js_def)

theorem handleKeyDown_filters_witness:
  "handleKeyDown quiet_host (chord ''3'' False) initial_state =
     \<lparr>calls = [PreventDefault, StopPropagation], rejected = None,
      after = initial_state\<lparr>filters :=
        \<lparr>all = False, tab = False, history = True, bookmark = False\<rparr>\<rparr>\<rparr> \<and>
   handleKeyDown quiet_host (chord ''x'' False) initial_state =
     \<lparr>calls = [], rejected = None, after = initial_state\<rparr> \<and>
   handleKeyDown quiet_host ((chord ''3'' False)\<lparr>ctrlKey := False\<rparr>) initial_state =
     \<lparr>calls = [], rejected = None, after = initial_state\<rparr>"
proof -
  have a: "(ctrlKey (chord ''3'' False) \<or> metaKey (chord ''3'' False)) \<and>
      (key (chord ''3'' False), FHistory) \<in> set [(js ''1'', FAll), (js ''2'', FTab),
         (js ''3'', FHistory), (js ''4'', FBookmark)]"
    by (simp add: chord_def)
  have b: "key (chord ''x'' False) \<notin> set [js ''Enter'', js ''1'', js ''2'', js ''3'', js ''4'']"
    by (simp add: chord_def js_def)
  have c: "\<not> (ctrlKey ((chord ''3'' False)\<lparr>ctrlKey := False\<rparr>) \<or>
      metaKey ((chord ''3'' False)\<lparr>ctrlKey := False\<rparr>))"
    by (simp add: chord_def)
  have f: "handleFilterClick FHistory (filters initial_state)
      = \<lparr>all = False, tab = False, history = True, bookmark = False\<rparr>"
    by (simp add: handleFilterClick_def initial_state_def initial_filters_def)
  from handleKeyDown_filters [of "chord ''3'' False" FHistory quiet_host initial_state] a f
    handleKeyDown_filters [of "chord ''x'' False" FAll quiet_host initial_state] b
    handleKeyDown_filters [of "(chord ''3'' False)\<lparr>ctrlKey := False\<rparr>" FAll quiet_host
      initial_state] c
  show ?thesis by simp
qed

text \<open>
  Claim C7 as the spec states it fails: with Shift held as well, Ctrl and the key 2 still
  toggle the tab filter.
\<close>

theorem handleKeyDown_shift_counterexample:
  "shiftKey (chord ''2'' True) \<and>
   filters (after (handleKeyDown quiet_host (chord ''2'' True) initial_state))
     = \<lparr>all = False, tab = True, history = False, bookmark = False\<rparr> \<and>
   filters initial_state = \<lparr>all = True, tab = False, history = False, bookmark = False\<rparr>"
  by (simp add: handleKeyDown_def consume_and_click_def chord_def js_def initial_state_def
      initial_filters_def handleFilterClick_def)

text \<open>
  Claim C4, as the code has it. Ctrl or Cmd with Enter and without Shift, on a non-empty
  query that has no surrogate code unit without its partner: the default is prevented
  and a tab is created at the google search URL followed by the URI-component-encoded
  query, URL-shaped or not; the popup closes once the host has created the tab. With
  Shift and a URL-shaped query a tab is created at the query itself, \<^verbatim>\<open>https://\<close>
  put before it when it starts with neither \<^verbatim>\<open>http://\<close> nor \<^verbatim>\<open>https://\<close>. The query
  \<^verbatim>\<open>https://example.com\<close> is encoded as \<^verbatim>\<open>https%3A%2F%2Fexample.com\<close>.
\<close>

theorem handleKeyDown_enter:
  assumes "key e = js ''Enter''" and "ctrlKey e \<or> metaKey e"
  shows "(\<not> shiftKey e \<and> searchValue st \<noteq> [] \<and> isWellFormed (searchValue st) \<longrightarrow>
      (\<exists>encoded. encodeURIComponent (searchValue st) = Some encoded \<and>
         calls (handleKeyDown h e st) =
           [PreventDefault, TabsCreate (js ''https://www.google.com/search?q='' @ encoded)] @
           (if tabs_create h (js ''https://www.google.com/search?q='' @ encoded) = None
            then [WindowClose] else []) \<and>
         after (handleKeyDown h e st) = st)) \<and>
    (shiftKey e \<and> isUrl (searchValue st) \<longrightarrow>
      calls (handleKeyDown h e st) =
        [PreventDefault,
         TabsCreate (if startsWith (searchValue st) (js ''http://'') \<or>
                        startsWith (searchValue st) (js ''https://'')
                     then searchValue st else js ''https://'' @ searchValue st)] @
        (if tabs_create h (if startsWith (searchValue st) (js ''http://'') \<or>
                              startsWith (searchValue st) (js ''https://'')
                           then searchValue st else js ''https://'' @ searchValue st) = None
         then [WindowClose] else []) \<and>
      after (handleKeyDown h e st) = st) \<and>
    encodeURIComponent (js ''https://example.com'') = Some (js ''https%3A%2F%2Fexample.com'')"
proof (intro conjI impI)
  from assms have mc: "metaKey e \<or> ctrlKey e" by blast
  {
  assume a: "\<not> shiftKey e \<and> searchValue st \<noteq> [] \<and> isWellFormed (searchValue st)"
  then obtain encoded where enc: "encodeURIComponent (searchValue st) = Some encoded"
    using encodeURIComponent_wellFormed [of "searchValue st"] by blast
  from assms(1) mc a enc
  have "handleKeyDown h e st =
      (create_and_close h (js ''https://www.google.com/search?q='' @ encoded) st)
        \<lparr>calls := PreventDefault #
           calls (create_and_close h (js ''https://www.google.com/search?q='' @ encoded) st)\<rparr>"
    by (simp add: handleKeyDown_def handleSearch_def searchUrl_prefix_def Let_def)
  then have "calls (handleKeyDown h e st) =
           [PreventDefault, TabsCreate (js ''https://www.google.com/search?q='' @ encoded)] @
           (if tabs_create h (js ''https://www.google.com/search?q='' @ encoded) = None
            then [WindowClose] else []) \<and>
         after (handleKeyDown h e st) = st"
    by (simp add: calls_create_and_close after_create_and_close)
  with enc show "\<exists>encoded. encodeURIComponent (searchValue st) = Some encoded \<and>
         calls (handleKeyDown h e st) =
           [PreventDefault, TabsCreate (js ''https://www.google.com/search?q='' @ encoded)] @
           (if tabs_create h (js ''https://www.google.com/search?q='' @ encoded) = None
            then [WindowClose] else []) \<and>
         after (handleKeyDown h e st) = st"
    by blast
  }
  let ?u = "if startsWith (searchValue st) (js ''http://'') \<or>
               startsWith (searchValue st) (js ''https://'')
            then searchValue st else js ''https://'' @ searchValue st"
  {
  assume b: "shiftKey e \<and> isUrl (searchValue st)"
  with assms(1) mc
  have hk: "handleKeyDown h e st =
      (create_and_close h ?u st)\<lparr>calls := PreventDefault # calls (create_and_close h ?u st)\<rparr>"
    by (simp add: handleKeyDown_def handleUrlNavigation_def matches_prefix_scheme_iff Let_def)
  show "calls (handleKeyDown h e st) =
      [PreventDefault, TabsCreate ?u] @ (if tabs_create h ?u = None then [WindowClose] else [])"
    unfolding hk by (simp add: calls_create_and_close)
  show "after (handleKeyDown h e st) = st"
    unfolding hk by (simp add: after_create_and_close)
  }
  show "encodeURIComponent (js ''https://example.com'') = Some (js ''https%3A%2F%2Fexample.com'')"
    by (simp add: enc_defs)
qed

text \<open>The scenario of the spec, and a URL-shaped query without scheme.\<close>

theorem handleKeyDown_enter_witness:
  "calls (handleKeyDown quiet_host (chord ''Enter'' False) (with_query ''https://example.com''))
     = [PreventDefault,
        TabsCreate (js ''https://www.google.com/search?q=https%3A%2F%2Fexample.com''),
        WindowClose] \<and>
   calls (handleKeyDown quiet_host (chord ''Enter'' True) (with_query ''https://example.com''))
     = [PreventDefault, TabsCreate (js ''https://example.com''), WindowClose] \<and>
   calls (handleKeyDown quiet_host (chord ''Enter'' True) (with_query ''example.com''))
     = [PreventDefault, TabsCreate (js ''https://example.com''), WindowClose]"
proof -
  have k: "key (chord ''Enter'' False) = js ''Enter''" "key (chord ''Enter'' True) = js ''Enter''"
    "ctrlKey (chord ''Enter'' False) \<or> metaKey (chord ''Enter'' False)"
    "ctrlKey (chord ''Enter'' True) \<or> metaKey (chord ''Enter'' True)"
    by (simp_all add: chord_def)
  have q: "searchValue (with_query ''https://example.com'') = js ''https://example.com''"
    "searchValue (with_query ''example.com'') = js ''example.com''"
    by (simp_all add: with_query_def initial_state_def)
  have a: "\<not> shiftKey (chord ''Enter'' False) \<and>
      searchValue (with_query ''https://example.com'') \<noteq> [] \<and>
      isWellFormed (searchValue (with_query ''https://example.com''))"
    unfolding q by (simp add: chord_def js_def isLeadingSurrogate_def isTrailingSurrogate_def)
  have b: "shiftKey (chord ''Enter'' True) \<and> isUrl (searchValue (with_query ''https://example.com''))"
    unfolding q using isUrl_example by (simp add: chord_def)
  have c: "shiftKey (chord ''Enter'' True) \<and> isUrl (searchValue (with_query ''example.com''))"
    unfolding q using isUrl_bare_example by (simp add: chord_def)
  have s: "startsWith (js ''https://example.com'') (js ''https://'')"
    "\<not> startsWith (js ''example.com'') (js ''http://'')"
    "\<not> startsWith (js ''example.com'') (js ''https://'')"
    by (simp_all add: startsWith_def js_def)
  have t: "\<And>u. tabs_create quiet_host u = None"
    by (simp add: quiet_host_def)
  have j: "js ''https://www.google.com/search?q='' @ js ''https%3A%2F%2Fexample.com''
      = js ''https://www.google.com/search?q=https%3A%2F%2Fexample.com''"
    "js ''https://'' @ js ''example.com'' = js ''https://example.com''"
    by (simp_all add: js_def)
  from handleKeyDown_enter [OF k(1) k(3), of "with_query ''https://example.com''" quiet_host] a
  have 1: "calls (handleKeyDown quiet_host (chord ''Enter'' False)
        (with_query ''https://example.com''))
     = [PreventDefault,
        TabsCreate (js ''https://www.google.com/search?q=https%3A%2F%2Fexample.com''),
        WindowClose]"
    unfolding q by (auto simp: t j enc_defs)
  from handleKeyDown_enter [OF k(2) k(4), of "with_query ''https://example.com''" quiet_host] b
  have 2: "calls (handleKeyDown quiet_host (chord ''Enter'' True)
        (with_query ''https://example.com''))
     = [PreventDefault, TabsCreate (js ''https://example.com''), WindowClose]"
    unfolding q using s by (simp add: t)
  from handleKeyDown_enter [OF k(2) k(4), of "with_query ''example.com''" quiet_host] c
  have 3: "calls (handleKeyDown quiet_host (chord ''Enter'' True) (with_query ''example.com''))
     = [PreventDefault, TabsCreate (js ''https://example.com''), WindowClose]"
    unfolding q using s by (simp add: t j)
  from 1 2 3 show ?thesis by blast
qed

text \<open>
  Claim C4 as the spec states it fails: on the non-empty query made of one leading
  surrogate \<^verbatim>\<open>encodeURIComponent\<close> throws, so Ctrl+Enter creates no tab.
\<close>

theorem handleKeyDown_lone_surrogate_counterexample:
  "searchValue (initial_state\<lparr>searchValue := [0xD800]\<rparr>) \<noteq> [] \<and>
   \<not> shiftKey (chord ''Enter'' False) \<and>
   handleKeyDown quiet_host (chord ''Enter'' False) (initial_state\<lparr>searchValue := [0xD800]\<rparr>)
     = \<lparr>calls = [PreventDefault], rejected = Some URIError,
        after = initial_state\<lparr>searchValue := [0xD800]\<rparr>\<rparr>"
  by (simp add: handleKeyDown_def handleSearch_def chord_def initial_state_def enc_defs
      isUrl_def)

section \<open>Properties of isUrl\<close>

text \<open>
  Claim C5, as the code has it. \<open>isUrl\<close> refuses every query without a valid-looking
  top-level domain, in particular every query without a dot, and every query whose text
  before the first space is not URL-shaped by itself: a space is accepted only in the
  path that follows the top-level domain. A refused query is a search query: the Quick
  Actions have no Navigate item and Ctrl or Cmd with Shift and Enter runs the web search.
\<close>

theorem isUrl_rejects:
  "(\<not> has_tld q \<longrightarrow> \<not> isUrl q) \<and>
   (0x2E \<notin> set q \<longrightarrow> \<not> isUrl q) \<and>
   (\<not> isUrl (takeWhile (\<lambda>c. c \<noteq> 0x20) q) \<longrightarrow> \<not> isUrl q) \<and>
   (\<not> isUrl (searchValue st) \<longrightarrow>
      NavigateTo \<notin> set (quickActions st) \<and>
      (key e = js ''Enter'' \<and> (metaKey e \<or> ctrlKey e) \<longrightarrow>
         handleKeyDown h e st =
           (handleSearch h (js ''google'') st)
             \<lparr>calls := PreventDefault # calls (handleSearch h (js ''google'') st)\<rparr>))"
proof (intro conjI impI)
  show "\<not> has_tld q \<Longrightarrow> \<not> isUrl q"
    using isUrl_has_tld by blast
  show "0x2E \<notin> set q \<Longrightarrow> \<not> isUrl q"
    using isUrl_has_tld has_tld_dot by blast
  show "\<not> isUrl (takeWhile (\<lambda>c. c \<noteq> 0x20) q) \<Longrightarrow> \<not> isUrl q"
    using isUrl_before_space by blast
  show "\<not> isUrl (searchValue st) \<Longrightarrow> NavigateTo \<notin> set (quickActions st)"
    by (simp add: quickActions_def)
  show "\<not> isUrl (searchValue st) \<Longrightarrow> key e = js ''Enter'' \<and> (metaKey e \<or> ctrlKey e) \<Longrightarrow>
      handleKeyDown h e st =
        (handleSearch h (js ''google'') st)
          \<lparr>calls := PreventDefault # calls (handleSearch h (js ''google'') st)\<rparr>"
    by (simp add: handleKeyDown_def Let_def)
qed

text \<open>Two words, a space before the dot, and a one-letter top-level domain.\<close>

theorem isUrl_rejects_witness:
  "\<not> isUrl (js ''hello world'') \<and>
   \<not> isUrl (js ''my site.com'') \<and>
   \<not> isUrl (js ''example.c'') \<and>
   quickActions (with_query ''hello world'') = [SearchGoogle] \<and>
   calls (handleKeyDown quiet_host (chord ''Enter'' True) (with_query ''hello world''))
     = [PreventDefault, TabsCreate (js ''https://www.google.com/search?q=hello%20world''),
        WindowClose]"
proof -
  have q: "searchValue (with_query ''hello world'') = js ''hello world''"
    by (simp add: with_query_def initial_state_def)
  have d: "0x2E \<notin> set (js ''hello world'')"
    by (simp add: js_def)
  have p: "takeWhile (\<lambda>c. c \<noteq> 0x20) (js ''my site.com'') = js ''my''"
    by (simp add: js_def)
  have m: "0x2E \<notin> set (js ''my'')"
    by (simp add: js_def)
  have t: "\<not> has_tld (js ''example.c'')"
    by (simp add: js_def)
  have k: "key (chord ''Enter'' True) = js ''Enter'' \<and>
      (metaKey (chord ''Enter'' True) \<or> ctrlKey (chord ''Enter'' True))"
    by (simp add: chord_def)
  have s: "calls (handleSearch quiet_host (js ''google'') (with_query ''hello world''))
      = [TabsCreate (js ''https://www.google.com/search?q=hello%20world''), WindowClose]"
    by (simp add: handleSearch_def with_query_def initial_state_def searchUrl_prefix_def
        create_and_close_def quiet_host_def enc_defs)
  have ne: "js ''hello world'' \<noteq> []"
    by (simp add: js_def)
  from isUrl_rejects [of "js ''hello world''" "with_query ''hello world''"
      "chord ''Enter'' True" quiet_host] d
  have 1: "\<not> isUrl (js ''hello world'')"
    by blast
  from isUrl_rejects [of "js ''my''" "with_query ''hello world''"
      "chord ''Enter'' True" quiet_host] m
  have "\<not> isUrl (js ''my'')"
    by blast
  with isUrl_rejects [of "js ''my site.com''" "with_query ''hello world''"
      "chord ''Enter'' True" quiet_host] p
  have 2: "\<not> isUrl (js ''my site.com'')"
    by simp
  from isUrl_rejects [of "js ''example.c''" "with_query ''hello world''"
      "chord ''Enter'' True" quiet_host] t
  have 3: "\<not> isUrl (js ''example.c'')"
    by blast
  from 1 have 4: "quickActions (with_query ''hello world'') = [SearchGoogle]"
    by (simp add: quickActions_def q ne)
  from isUrl_rejects [of "js ''hello world''" "with_query ''hello world''"
      "chord ''Enter'' True" quiet_host] 1 k
  have 5: "calls (handleKeyDown quiet_host (chord ''Enter'' True) (with_query ''hello world''))
     = [PreventDefault, TabsCreate (js ''https://www.google.com/search?q=hello%20world''),
        WindowClose]"
    unfolding q by (simp add: s)
  from 1 2 3 4 5 show ?thesis by blast
qed

text \<open>
  Claim C5 as the spec states it fails: the class of the path holds the space, so a
  query with a space after the top-level domain is URL-shaped, the Navigate item is
  shown and Ctrl+Shift+Enter navigates.
\<close>

theorem isUrl_space_counterexample:
  "0x20 \<in> set (js ''example.com/a b'') \<and>
   isUrl (js ''example.com/a b'') \<and>
   quickActions (with_query ''example.com/a b'') = [SearchGoogle, NavigateTo] \<and>
   calls (handleKeyDown quiet_host (chord ''Enter'' True) (with_query ''example.com/a b''))
     = [PreventDefault, TabsCreate (js ''https://example.com/a b''), WindowClose]"
proof -
  have u: "isUrl (js ''example.com/a b'')"
    by code_simp
  have q: "searchValue (with_query ''example.com/a b'') = js ''example.com/a b''"
    by (simp add: with_query_def initial_state_def)
  have ne: "js ''example.com/a b'' \<noteq> []"
    by (simp add: js_def)
  have s: "\<not> matches_prefix scheme_re (js ''example.com/a b'')"
    unfolding matches_prefix_scheme_iff by (simp add: startsWith_def js_def)
  have j: "js ''https://'' @ js ''example.com/a b'' = js ''https://example.com/a b''"
    by (simp add: js_def)
  have "0x20 \<in> set (js ''example.com/a b'')"
    by (simp add: js_def)
  moreover from u have "quickActions (with_query ''example.com/a b'') = [SearchGoogle, NavigateTo]"
    by (simp add: quickActions_def q ne)
  moreover from u s
  have "calls (handleKeyDown quiet_host (chord ''Enter'' True) (with_query ''example.com/a b''))
     = [PreventDefault, TabsCreate (js ''https://example.com/a b''), WindowClose]"
    by (simp add: handleKeyDown_def handleUrlNavigation_def create_and_close_def q j
        chord_def quiet_host_def Let_def)
  ultimately show ?thesis using u by blast
qed

end
